theory Spec2Isabelle
  imports Complex_Main "HOL-Library.AList"
begin

unbundle bit_operations_syntax

section \<open>pRT\_make\_spec: a driver around the petitRADTRANS transfer engine\<close>

text \<open>
  The script \<^verbatim>\<open>pRT_make_spec.py\<close> parses its command line, builds an isothermal
  atmosphere profile, enumerates the spectral orders, and for every order calls the
  external engine and pickles a (wavelength, flux decrement) pair.

  Conventions of the embedding:
  \<^item> Python floats and numpy \<^verbatim>\<open>float64\<close> entries are real numbers (no rounding, no
    overflow); a numpy array is the list of its entries and arithmetic on arrays is
    elementwise.
  \<^item> The petitRADTRANS engine, the constants of \<^verbatim>\<open>nat_cst\<close>, \<^verbatim>\<open>pickle.load\<close> and the
    failures of the operating system are not part of the script: they are the fields of
    an environment record \<open>env\<close>.
  \<^item> Everything the script does to the outside is recorded in a \<open>world\<close>: the
    directories that exist, the pickle files written and the engine invocations made.
  \<^item> An exception is a value of type \<open>error\<close>; the script has no \<^verbatim>\<open>try\<close>, so the first
    exception ends the run.
  \<^item> Standard output and the timing of the run are not modelled.
\<close>

subsection \<open>Values\<close>

datatype error = TypeError | IndexError | External string

text \<open>A wavelength bound is a Python float (single model) or a numpy array (one entry per
  order); multiplication by a float broadcasts over the array.\<close>

datatype wl = Scalar real | Array "real list"

fun wl_scale :: "real \<Rightarrow> wl \<Rightarrow> wl" where
  "wl_scale k (Scalar x) = Scalar (k * x)"
| "wl_scale k (Array xs) = Array (map (\<lambda>x. k * x) xs)"

text \<open>The result of \<^verbatim>\<open>**\<close> with a float exponent is a float, or a complex number when the
  base is negative; a numpy array has the corresponding dtype.\<close>

datatype pynum = PyFloat real | PyComplex complex

datatype ndarray = Float64 "real list" | Complex128 "complex list"

definition ones_like :: "real list \<Rightarrow> real list" where
  "ones_like a = map (\<lambda>_. 1) a"

fun ones_like_nd :: "ndarray \<Rightarrow> ndarray" where
  "ones_like_nd (Float64 xs) = Float64 (map (\<lambda>_. 1) xs)"
| "ones_like_nd (Complex128 zs) = Complex128 (map (\<lambda>_. 1) zs)"

fun times_nd :: "pynum \<Rightarrow> ndarray \<Rightarrow> ndarray" where
  "times_nd (PyFloat k) (Float64 xs) = Float64 (map (\<lambda>x. k * x) xs)"
| "times_nd (PyFloat k) (Complex128 zs) = Complex128 (map (\<lambda>z. complex_of_real k * z) zs)"
| "times_nd (PyComplex k) (Float64 xs) = Complex128 (map (\<lambda>x. k * complex_of_real x) xs)"
| "times_nd (PyComplex k) (Complex128 zs) = Complex128 (map (\<lambda>z. k * z) zs)"

fun int_times :: "int \<Rightarrow> pynum \<Rightarrow> pynum" where
  "int_times n (PyFloat x) = PyFloat (real_of_int n * x)"
| "int_times n (PyComplex z) = PyComplex (of_int n * z)"

text \<open>\<^verbatim>\<open>b ** 0.25\<close> for an integer \<open>b\<close>: the real fourth root, or for a negative base the
  principal complex fourth root.\<close>

definition pow_quarter :: "int \<Rightarrow> pynum" where
  "pow_quarter b =
     (if 0 \<le> b then PyFloat (real_of_int b powr (1 / 4))
      else PyComplex (rcis (real_of_int (- b) powr (1 / 4)) (pi / 4)))"

text \<open>An entry of the wavelength file is a numpy array of integers (dtype int64) or of
  floats (dtype float64); an element read from it is a numpy scalar of that kind.\<close>

datatype order_array = OInt64 "int list" | OFloat64 "real list"

datatype npscalar = NpInt int | NpFloat real

text \<open>\<^verbatim>\<open>a[0]\<close> and \<^verbatim>\<open>a[-1]\<close>; both raise IndexError on an empty array.\<close>

fun getitem_first :: "order_array \<Rightarrow> error + npscalar" where
  "getitem_first (OInt64 xs) = (case xs of [] \<Rightarrow> Inl IndexError | x # _ \<Rightarrow> Inr (NpInt x))"
| "getitem_first (OFloat64 xs) = (case xs of [] \<Rightarrow> Inl IndexError | x # _ \<Rightarrow> Inr (NpFloat x))"

fun getitem_last :: "order_array \<Rightarrow> error + npscalar" where
  "getitem_last (OInt64 xs) = (if xs = [] then Inl IndexError else Inr (NpInt (last xs)))"
| "getitem_last (OFloat64 xs) = (if xs = [] then Inl IndexError else Inr (NpFloat (last xs)))"

text \<open>\<^verbatim>\<open>np.array(l)\<close> for a list of scalars: the dtype is int64 when the list is not empty
  and holds integers only, and float64 otherwise (the integers are converted).\<close>

fun all_ints :: "npscalar list \<Rightarrow> int list option" where
  "all_ints [] = Some []"
| "all_ints (NpInt i # r) = map_option ((#) i) (all_ints r)"
| "all_ints (NpFloat x # r) = None"

fun as_float :: "npscalar \<Rightarrow> real" where
  "as_float (NpInt i) = real_of_int i"
| "as_float (NpFloat x) = x"

definition np_array :: "npscalar list \<Rightarrow> order_array" where
  "np_array l =
     (case all_ints l of
        Some is \<Rightarrow> (if is = [] then OFloat64 [] else OInt64 is)
      | None \<Rightarrow> OFloat64 (map as_float l))"

text \<open>\<^verbatim>\<open>a /= k\<close> for a float \<open>k\<close>: in place, so the quotient must be cast back to the dtype
  of \<open>a\<close>, which numpy refuses for int64 with a TypeError.\<close>

fun itruediv :: "order_array \<Rightarrow> real \<Rightarrow> error + real list" where
  "itruediv (OInt64 xs) k = Inl TypeError"
| "itruediv (OFloat64 xs) k = Inr (map (\<lambda>x. x / k) xs)"

subsection \<open>Strings\<close>

definition digit_char :: "nat \<Rightarrow> char" where
  "digit_char d = ''0123456789'' ! d"

fun str :: "nat \<Rightarrow> string" where
  "str n = (if n < 10 then [digit_char n] else str (n div 10) @ [digit_char (n mod 10)])"

declare str.simps [simp del]

text \<open>\<^verbatim>\<open>sep.join(xs)\<close>\<close>

fun join :: "string \<Rightarrow> string list \<Rightarrow> string" where
  "join sep [] = []"
| "join sep [x] = x"
| "join sep (x # y # ys) = x @ sep @ join sep (y # ys)"

subsection \<open>Command line\<close>

text \<open>What the user typed: the positional and the required options are always there
  (argparse exits otherwise), the others may be absent.\<close>

record cli =
  cli_planet :: string
  cli_Rp :: real
  cli_Rs :: real
  cli_grav :: real
  cli_Teq :: int
  cli_Teff :: "int option"
  cli_Tint :: "int option"
  cli_mmw :: real
  cli_wmin :: "real option"
  cli_wmax :: "real option"
  cli_wlens_file :: "string option"
  cli_species :: "string list option"

record args =
  arg_planet :: string
  arg_Rp :: real
  arg_Rs :: real
  arg_grav :: real
  arg_Teq :: int
  arg_Teff :: "int option"
  arg_Tint :: "int option"
  arg_mmw :: real
  arg_wmin :: real
  arg_wmax :: real
  arg_wlens_file :: "string option"
  arg_species :: "string list"

text \<open>\<^verbatim>\<open>parser.parse_args()\<close>: the defaults of lines 86 to 93.\<close>

definition parse_args :: "cli \<Rightarrow> args" where
  "parse_args u =
     \<lparr> arg_planet = cli_planet u,
       arg_Rp = cli_Rp u,
       arg_Rs = cli_Rs u,
       arg_grav = cli_grav u,
       arg_Teq = cli_Teq u,
       arg_Teff = cli_Teff u,
       arg_Tint = cli_Tint u,
       arg_mmw = cli_mmw u,
       arg_wmin = (case cli_wmin u of None \<Rightarrow> 12 / 10 | Some v \<Rightarrow> v),
       arg_wmax = (case cli_wmax u of None \<Rightarrow> 25 / 10 | Some v \<Rightarrow> v),
       arg_wlens_file = cli_wlens_file u,
       arg_species = (case cli_species u of None \<Rightarrow> [''H2''] | Some s \<Rightarrow> s) \<rparr>"

subsection \<open>The engine, the environment and the world\<close>

text \<open>One invocation of the engine: the arguments of the \<^verbatim>\<open>Radtrans\<close> constructor, of
  \<^verbatim>\<open>setup_opa_structure\<close> and of \<^verbatim>\<open>calc_transm\<close>, which \<^verbatim>\<open>compute_model\<close> calls in a row
  on one object.\<close>

record request =
  line_species :: "string list"
  rayleigh_species :: "string list"
  continuum_opacities :: "string list"
  wlen_bords_micron :: "wl list"
  rt_mode :: string
  lbl_opacity_sampling :: nat
  rq_pressures :: "real list"
  rq_temperature :: ndarray
  rq_abundances :: "(string \<times> real list) list"
  rq_gravity :: real
  rq_MMW :: ndarray
  R_pl :: real
  P0_bar :: real

text \<open>The environment. \<open>engine n rq\<close> is what the engine does on its \<open>n\<close>-th invocation
  (counted from 0): it raises, or it yields the attributes \<^verbatim>\<open>transm_rad\<close> and \<^verbatim>\<open>freq\<close>.
  \<open>pickle_load p\<close> is \<^verbatim>\<open>pickle.load(open(p,'rb'))\<close>: it raises, or it yields the list of
  the per-order wavelength arrays. \<open>makedirs_error\<close> and \<open>dump_error\<close> say whether \<^verbatim>\<open>os.makedirs\<close> and
  \<^verbatim>\<open>pickle.dump(..., open(p,'wb'))\<close> raise on a path.\<close>

record env =
  nc_c :: real
  nc_r_sun :: real
  nc_r_jup_mean :: real
  engine :: "nat \<Rightarrow> request \<Rightarrow> error + (real list \<times> real list)"
  pickle_load :: "string \<Rightarrow> error + order_array list"
  makedirs_error :: "string \<Rightarrow> error option"
  dump_error :: "string \<Rightarrow> error option"

record world =
  dirs :: "string list"
  writes :: "(string \<times> real list \<times> real list) list"
  calls :: "request list"

text \<open>\<^verbatim>\<open>if not os.path.exists(d): os.makedirs(d)\<close>\<close>

definition ensure_dir :: "env \<Rightarrow> string \<Rightarrow> world \<Rightarrow> error option \<times> world" where
  "ensure_dir ev d w =
     (if d \<in> set (dirs w) then (None, w)
      else case makedirs_error ev d of
             Some e \<Rightarrow> (Some e, w)
           | None \<Rightarrow> (None, w\<lparr>dirs := dirs w @ [d]\<rparr>))"

subsection \<open>The atmosphere profile (lines 109 to 154)\<close>

text \<open>\<^verbatim>\<open>np.logspace(-10, 2, 100)\<close>\<close>

definition pressures :: "real list" where
  "pressures = map (\<lambda>k. 10 powr (- 10 + real k * (12 / 99))) [0..<100]"

text \<open>Lines 122 to 125. In Python \<^verbatim>\<open>^\<close> is the bitwise exclusive or and binds weaker than
  \<^verbatim>\<open>+\<close>, so \<^verbatim>\<open>Tint^4+Teq^4\<close> is \<^verbatim>\<open>(Tint ^ (4+Teq)) ^ 4\<close>; \<^verbatim>\<open>**\<close> binds stronger than \<^verbatim>\<open>*\<close>.
  With \<^verbatim>\<open>--Teff\<close> given and \<^verbatim>\<open>--Tint\<close> absent, \<^verbatim>\<open>None ^ int\<close> raises TypeError.\<close>

definition temperature :: "int option \<Rightarrow> int option \<Rightarrow> int \<Rightarrow> error + ndarray" where
  "temperature Teff Tint Teq =
     (case Teff of
        Some te \<Rightarrow>
          (case Tint of
             None \<Rightarrow> Inl TypeError
           | Some ti \<Rightarrow>
               Inr (times_nd (int_times te (pow_quarter ((ti XOR (4 + Teq)) XOR 4)))
                      (Float64 (ones_like pressures))))
      | None \<Rightarrow> Inr (times_nd (PyFloat (real_of_int Teq)) (Float64 (ones_like pressures))))"

text \<open>Lines 130 to 138.\<close>

definition LS :: "string list \<Rightarrow> string list" where
  "LS species =
     (let l = [];
          l = (if ''CO'' \<in> set species then l @ [''CO_all_iso''] else l);
          l = (if ''H2O'' \<in> set species then l @ [''H2O_main_iso''] else l);
          l = (if ''CO2'' \<in> set species then l @ [''CO2_main_iso''] else l);
          l = (if ''CH4'' \<in> set species then l @ [''CH4_main_iso''] else l);
          l = (if ''HCN'' \<in> set species then l @ [''HCN_main_iso''] else l);
          l = (if ''NH3'' \<in> set species then l @ [''NH3_main_iso''] else l);
          l = (if ''H2'' \<in> set species then l @ [''H2_main_iso''] else l)
      in l)"

text \<open>Lines 146 to 154: a dict filled by eight assignments, in insertion order.\<close>

definition setitem :: "string \<Rightarrow> real list \<Rightarrow> (string \<times> real list) list \<Rightarrow> (string \<times> real list) list" where
  "setitem k v d = AList.update k v d"

definition abundances :: "(string \<times> real list) list" where
  "abundances =
     (let d = [];
          d = setitem ''H2'' (map (\<lambda>x. (71 / 100) * x) (ones_like pressures)) d;
          d = setitem ''He'' (map (\<lambda>x. (27 / 100) * x) (ones_like pressures)) d;
          d = setitem ''H2O_main_iso'' (map (\<lambda>x. (1 / 1000) * x) (ones_like pressures)) d;
          d = setitem ''CO_all_iso'' (map (\<lambda>x. (1 / 1000) * x) (ones_like pressures)) d;
          d = setitem ''NH3'' (map (\<lambda>x. (22 / 1000000) * x) (ones_like pressures)) d;
          d = setitem ''CO2_main_iso'' (map (\<lambda>x. (1 / 10000) * x) (ones_like pressures)) d;
          d = setitem ''CH4_main_iso'' (map (\<lambda>x. (1 / 1000) * x) (ones_like pressures)) d;
          d = setitem ''HCN_main_iso'' (map (\<lambda>x. (11 / 100000) * x) (ones_like pressures)) d
      in d)"

text \<open>The module-level names that \<^verbatim>\<open>compute_model\<close> reads.\<close>

record globals =
  g_LS :: "string list"
  g_pressures :: "real list"
  g_temperature :: ndarray
  g_abundances :: "(string \<times> real list) list"
  g_gravity :: real
  g_MMW :: ndarray
  g_Rp :: real
  g_P0 :: real

subsection \<open>compute\_model (lines 55 to 76)\<close>

definition engine_request :: "globals \<Rightarrow> wl \<Rightarrow> wl \<Rightarrow> real \<Rightarrow> request" where
  "engine_request g wmin wmax wfactor =
     (let lamb_inf = wl_scale (1 - wfactor) wmin;
          lamb_sup = wl_scale (1 + wfactor) wmax
      in \<lparr> line_species = g_LS g,
           rayleigh_species = [''H2'', ''He''],
           continuum_opacities = [''H2-H2'', ''H2-He''],
           wlen_bords_micron = [lamb_inf, lamb_sup],
           rt_mode = ''lbl'',
           lbl_opacity_sampling = 10,
           rq_pressures = g_pressures g,
           rq_temperature = g_temperature g,
           rq_abundances = g_abundances g,
           rq_gravity = g_gravity g,
           rq_MMW = g_MMW g,
           R_pl = g_Rp g,
           P0_bar = g_P0 g \<rparr>)"

definition compute_model ::
  "env \<Rightarrow> globals \<Rightarrow> wl \<Rightarrow> wl \<Rightarrow> real \<Rightarrow> world \<Rightarrow> (error + (real list \<times> real list)) \<times> world" where
  "compute_model ev g wmin wmax wfactor w =
     (let rq = engine_request g wmin wmax wfactor;
          w' = w\<lparr>calls := calls w @ [rq]\<rparr>
      in case engine ev (length (calls w)) rq of
           Inl e \<Rightarrow> (Inl e, w')
         | Inr (transm_rad, freq) \<Rightarrow>
             (let Rtransit = transm_rad;
                  wlens = map (\<lambda>f. nc_c ev / f) freq;
                  wlens = map (\<lambda>x. x / (1 / 10000)) wlens
              in (Inr (Rtransit, wlens), w')))"

subsection \<open>Order enumeration (lines 166 to 195)\<close>

record orders =
  order_by_order :: bool
  ndet :: nat
  W_min :: wl
  W_max :: wl
  det :: "nat list"

text \<open>The loop of lines 179 to 181 over \<^verbatim>\<open>range(ndet)\<close>; \<^verbatim>\<open>A[idet][0]\<close> and \<^verbatim>\<open>A[idet][-1]\<close>
  raise IndexError on an empty entry.\<close>

fun window_loop ::
  "order_array list \<Rightarrow> nat list \<Rightarrow> npscalar list \<times> npscalar list \<Rightarrow>
     error + (npscalar list \<times> npscalar list)" where
  "window_loop A [] acc = Inr acc"
| "window_loop A (idet # rest) (mins, maxs) =
     (if idet < length A
      then (case getitem_first (A ! idet) of
              Inl e \<Rightarrow> Inl e
            | Inr lo \<Rightarrow>
                (case getitem_last (A ! idet) of
                   Inl e \<Rightarrow> Inl e
                 | Inr hi \<Rightarrow> window_loop A rest (mins @ [lo], maxs @ [hi])))
      else Inl IndexError)"

text \<open>The mean wavelength \<^verbatim>\<open>Wm\<close> is computed and never read; it is left out.\<close>

definition enumerate_orders :: "env \<Rightarrow> args \<Rightarrow> error + orders" where
  "enumerate_orders ev a =
     (case arg_wlens_file a of
        Some rep_wave \<Rightarrow>
          (case pickle_load ev rep_wave of
             Inl e \<Rightarrow> Inl e
           | Inr A \<Rightarrow>
               (case window_loop A [0..<length A] ([], []) of
                  Inl e \<Rightarrow> Inl e
                | Inr (mins, maxs) \<Rightarrow>
                    (let W_min_arr = np_array mins;
                         W_max_arr = np_array maxs
                     in case itruediv W_min_arr 1000 of
                          Inl e \<Rightarrow> Inl e
                        | Inr wmins \<Rightarrow>
                            (case itruediv W_max_arr 1000 of
                               Inl e \<Rightarrow> Inl e
                             | Inr wmaxs \<Rightarrow>
                                 Inr \<lparr> order_by_order = True,
                                       ndet = length A,
                                       W_min = Array wmins,
                                       W_max = Array wmaxs,
                                       det = [0..<length A] \<rparr>))))
      | None \<Rightarrow>
          Inr \<lparr> order_by_order = False,
                ndet = 1,
                W_min = Scalar (arg_wmin a),
                W_max = Scalar (arg_wmax a),
                det = [1] \<rparr>)"

subsection \<open>Setup: everything before the main loop (lines 98 to 204)\<close>

record ctx =
  cx_globals :: globals
  cx_Rs :: real
  cx_wfactor :: real
  cx_orders :: orders
  cx_save_dir :: string

text \<open>Lines 199 to 203.\<close>

definition solar :: string where
  "solar = ''1x''"

definition extend_save_dir :: "string \<Rightarrow> args \<Rightarrow> bool \<Rightarrow> string" where
  "extend_save_dir save_dir a obo =
     (let sp = join ''_'' (arg_species a);
          save_dir = save_dir @ (arg_planet a @ ''_'' @ solar @ ''Solar_'' @ sp @ ''_R1M/'');
          save_dir = (if obo then save_dir @ ''order_by_order/'' else save_dir)
      in save_dir)"

definition run_setup :: "env \<Rightarrow> cli \<Rightarrow> world \<Rightarrow> (error + ctx) \<times> world" where
  "run_setup ev u w =
     (let a = parse_args u;
          save_dir = ''pRT_models/''
      in case ensure_dir ev save_dir w of
           (Some e, w1) \<Rightarrow> (Inl e, w1)
         | (None, w1) \<Rightarrow>
             (let Rp = arg_Rp a * nc_r_jup_mean ev;
                  Rs = arg_Rs a * nc_r_sun ev;
                  gravity = arg_grav a;
                  P0 = 1 / 100;
                  Teq = arg_Teq a;
                  mmw = arg_mmw a;
                  wfactor = 1 / 100
              in case temperature (arg_Teff a) (arg_Tint a) Teq of
                   Inl e \<Rightarrow> (Inl e, w1)
                 | Inr temp \<Rightarrow>
                     (let MMW = times_nd (PyFloat mmw) (ones_like_nd temp);
                          g = \<lparr> g_LS = LS (arg_species a),
                                g_pressures = pressures,
                                g_temperature = temp,
                                g_abundances = abundances,
                                g_gravity = gravity,
                                g_MMW = MMW,
                                g_Rp = Rp,
                                g_P0 = P0 \<rparr>
                      in case enumerate_orders ev a of
                           Inl e \<Rightarrow> (Inl e, w1)
                         | Inr os \<Rightarrow>
                             (let save_dir = extend_save_dir save_dir a (order_by_order os)
                              in case ensure_dir ev save_dir w1 of
                                   (Some e, w2) \<Rightarrow> (Inl e, w2)
                                 | (None, w2) \<Rightarrow>
                                     (Inr \<lparr> cx_globals = g,
                                            cx_Rs = Rs,
                                            cx_wfactor = wfactor,
                                            cx_orders = os,
                                            cx_save_dir = save_dir \<rparr>, w2)))))"

subsection \<open>The main loop (lines 208 to 235)\<close>

text \<open>Line 213: \<^verbatim>\<open>DF = -1.0* Rtransit**(2)/Rs**(2)\<close>\<close>

definition flux_decrement :: "real list \<Rightarrow> real \<Rightarrow> real list" where
  "flux_decrement Rtransit Rs = map (\<lambda>r. (- 1) * r ^ 2 / Rs ^ 2) Rtransit"

text \<open>Line 216.\<close>

definition rep_fin :: "ctx \<Rightarrow> nat \<Rightarrow> string" where
  "rep_fin cx idet =
     cx_save_dir cx @ ''template_det'' @ str (det (cx_orders cx) ! idet) @ ''.pic''"

text \<open>The request that line 211 builds through \<^verbatim>\<open>compute_model(W_min,W_max,wfactor)\<close>, and
  the wavelengths of lines 73 and 74; two names for stating properties of the loop.\<close>

definition order_request :: "ctx \<Rightarrow> request" where
  "order_request cx =
     engine_request (cx_globals cx) (W_min (cx_orders cx)) (W_max (cx_orders cx)) (cx_wfactor cx)"

definition wlens_of :: "env \<Rightarrow> real list \<Rightarrow> real list" where
  "wlens_of ev freq = map (\<lambda>f. nc_c ev / f / (1 / 10000)) freq"

text \<open>One pass of the loop body for the index \<open>idet\<close>. Line 211 hands \<^verbatim>\<open>W_min\<close> and
  \<^verbatim>\<open>W_max\<close> to \<^verbatim>\<open>compute_model\<close> as they are, without an index.\<close>

definition order_body :: "env \<Rightarrow> ctx \<Rightarrow> nat \<Rightarrow> world \<Rightarrow> error option \<times> world" where
  "order_body ev cx idet w =
     (if \<not> idet < length (det (cx_orders cx)) then (Some IndexError, w)
      else case compute_model ev (cx_globals cx) (W_min (cx_orders cx)) (W_max (cx_orders cx))
                  (cx_wfactor cx) w of
             (Inl e, w1) \<Rightarrow> (Some e, w1)
           | (Inr (Rtransit, wlens), w1) \<Rightarrow>
               (let DF = flux_decrement Rtransit (cx_Rs cx);
                    p = rep_fin cx idet
                in case dump_error ev p of
                     Some e \<Rightarrow> (Some e, w1)
                   | None \<Rightarrow> (None, w1\<lparr>writes := writes w1 @ [(p, wlens, DF)]\<rparr>)))"

fun main_loop :: "env \<Rightarrow> ctx \<Rightarrow> nat list \<Rightarrow> world \<Rightarrow> error option \<times> world" where
  "main_loop ev cx [] w = (None, w)"
| "main_loop ev cx (idet # rest) w =
     (case order_body ev cx idet w of
        (Some e, w1) \<Rightarrow> (Some e, w1)
      | (None, w1) \<Rightarrow> main_loop ev cx rest w1)"

text \<open>The whole script: \<open>None\<close> when it runs to the end, \<open>Some e\<close> when \<open>e\<close> is raised.\<close>

definition main :: "env \<Rightarrow> cli \<Rightarrow> world \<Rightarrow> error option \<times> world" where
  "main ev u w =
     (case run_setup ev u w of
        (Inl e, w1) \<Rightarrow> (Some e, w1)
      | (Inr cx, w1) \<Rightarrow> main_loop ev cx [0..<ndet (cx_orders cx)] w1)"

subsection \<open>Sample runs\<close>

text \<open>Concrete inputs on which the definitions are evaluated below. The engine of
  \<open>ex_env\<close> answers every request with one transit radius (a tenth of the solar radius)
  at one frequency (a wavelength of one micron); \<open>orders.pic\<close> holds two orders as float
  arrays, \<open>orders_int.pic\<close> the same two orders as integer arrays.
  \<open>ex_env_engine_fails\<close> raises on the second invocation, \<open>ex_env_dump_fails\<close> on writing
  the file of order 1.\<close>

definition ex_engine :: "nat \<Rightarrow> request \<Rightarrow> error + (real list \<times> real list)" where
  "ex_engine n rq = Inr ([6957000000], [299792458000000])"

definition ex_pickle_load :: "string \<Rightarrow> error + order_array list" where
  "ex_pickle_load p =
     (if p = ''orders.pic'' then Inr [OFloat64 [1000, 1100], OFloat64 [2000, 2100]]
      else if p = ''orders_int.pic'' then Inr [OInt64 [1000, 1100], OInt64 [2000, 2100]]
      else Inl (External ''FileNotFoundError''))"

definition ex_env :: env where
  "ex_env = \<lparr> nc_c = 29979245800, nc_r_sun = 69570000000, nc_r_jup_mean = 6991100000,
              engine = ex_engine, pickle_load = ex_pickle_load,
              makedirs_error = (\<lambda>d. None), dump_error = (\<lambda>p. None) \<rparr>"

definition ex_env_engine_fails :: env where
  "ex_env_engine_fails =
     ex_env\<lparr>engine := (\<lambda>n rq. if n = 1 then Inl (External ''engine'') else ex_engine n rq)\<rparr>"

definition ex_env_dump_fails :: env where
  "ex_env_dump_fails =
     ex_env\<lparr>dump_error := (\<lambda>p.
        if p = ''pRT_models/W77_1xSolar_H2O_NH3_H2_R1M/order_by_order/template_det1.pic''
        then Some (External ''disk'') else None)\<rparr>"

definition ex_cli :: cli where
  "ex_cli = \<lparr> cli_planet = ''W77'', cli_Rp = 12 / 10, cli_Rs = 1, cli_grav = 1000,
              cli_Teq = 1700, cli_Teff = None, cli_Tint = None, cli_mmw = 23 / 10,
              cli_wmin = None, cli_wmax = None, cli_wlens_file = None,
              cli_species = Some [''H2O'', ''NH3'', ''H2''] \<rparr>"

definition ex_cli_orders :: cli where
  "ex_cli_orders = ex_cli\<lparr>cli_wlens_file := Some ''orders.pic''\<rparr>"

definition ex_cli_int :: cli where
  "ex_cli_int = ex_cli\<lparr>cli_wlens_file := Some ''orders_int.pic''\<rparr>"

definition ex_cli_missing :: cli where
  "ex_cli_missing = ex_cli\<lparr>cli_wlens_file := Some ''missing.pic''\<rparr>"

definition w0 :: world where
  "w0 = \<lparr> dirs = [], writes = [], calls = [] \<rparr>"

definition ex_globals :: globals where
  "ex_globals = \<lparr> g_LS = [''H2O_main_iso'', ''NH3_main_iso'', ''H2_main_iso''], g_pressures = pressures,
                  g_temperature = Float64 (replicate 100 1700), g_abundances = abundances,
                  g_gravity = 1000, g_MMW = Float64 (replicate 100 (23 / 10)),
                  g_Rp = 8389320000, g_P0 = 1 / 100 \<rparr>"

definition ex_cx :: ctx where
  "ex_cx = \<lparr> cx_globals = ex_globals, cx_Rs = 69570000000, cx_wfactor = 1 / 100,
             cx_orders = \<lparr> order_by_order = False, ndet = 1, W_min = Scalar (12 / 10),
                           W_max = Scalar (25 / 10), det = [1] \<rparr>,
             cx_save_dir = ''pRT_models/W77_1xSolar_H2O_NH3_H2_R1M/'' \<rparr>"

definition ex_w1 :: world where
  "ex_w1 = \<lparr> dirs = [''pRT_models/'', ''pRT_models/W77_1xSolar_H2O_NH3_H2_R1M/''],
             writes = [], calls = [] \<rparr>"

definition ex_cx_orders :: ctx where
  "ex_cx_orders = \<lparr> cx_globals = ex_globals, cx_Rs = 69570000000, cx_wfactor = 1 / 100,
             cx_orders = \<lparr> order_by_order = True, ndet = 2, W_min = Array [1, 2],
                           W_max = Array [11 / 10, 21 / 10], det = [0, 1] \<rparr>,
             cx_save_dir = ''pRT_models/W77_1xSolar_H2O_NH3_H2_R1M/order_by_order/'' \<rparr>"

definition ex_w1_orders :: world where
  "ex_w1_orders =
     \<lparr> dirs = [''pRT_models/'', ''pRT_models/W77_1xSolar_H2O_NH3_H2_R1M/order_by_order/''],
       writes = [], calls = [] \<rparr>"

definition ex_final :: world where
  "ex_final =
     \<lparr> dirs = [''pRT_models/'', ''pRT_models/W77_1xSolar_H2O_NH3_H2_R1M/''],
       writes = [(''pRT_models/W77_1xSolar_H2O_NH3_H2_R1M/template_det1.pic'', [1], [- (1 / 100)])],
       calls = [order_request ex_cx] \<rparr>"

section \<open>Properties\<close>

subsection \<open>The profile and the order enumeration\<close>

lemma ones_like_pressures: "ones_like pressures = replicate 100 1"
  by (simp add: ones_like_def pressures_def map_replicate_const del: upt_rec_numeral)

lemma abundances_keys_list:
  "map fst abundances = [''H2'', ''He'', ''H2O_main_iso'', ''CO_all_iso'', ''NH3'',
      ''CO2_main_iso'', ''CH4_main_iso'', ''HCN_main_iso'']"
  by (simp add: abundances_def setitem_def Let_def)

lemma LS_NH3: "''NH3'' \<in> set species \<Longrightarrow> ''NH3_main_iso'' \<in> set (LS species)"
  by (simp add: LS_def Let_def)

lemma LS_H2: "''H2'' \<in> set species \<Longrightarrow> ''H2_main_iso'' \<in> set (LS species)"
  by (simp add: LS_def Let_def)

lemma map_of_None_keys: "k \<notin> set (map fst d) \<Longrightarrow> map_of d k = None"
  by (simp add: map_of_eq_None_iff)

lemma temperature_no_Teff:
  "temperature None Tint Teq = Inr (Float64 (replicate 100 (real_of_int Teq)))"
  by (simp add: temperature_def ones_like_pressures)

lemma times_pow_nonneg:
  "0 \<le> b \<Longrightarrow> times_nd (int_times te (pow_quarter b)) (Float64 (replicate 100 1)) =
     Float64 (replicate 100 (real_of_int te * real_of_int b powr (1 / 4)))"
  by (simp add: pow_quarter_def)

lemma times_pow_neg:
  "b < 0 \<Longrightarrow> times_nd (int_times te (pow_quarter b)) (Float64 (replicate 100 1)) =
     Complex128 (replicate 100 (of_int te * rcis (real_of_int (- b) powr (1 / 4)) (pi / 4)))"
  by (simp add: pow_quarter_def)

lemma temperature_nonneg:
  assumes "0 \<le> (ti XOR (4 + Teq)) XOR 4"
  shows "temperature (Some te) (Some ti) Teq =
     Inr (Float64 (replicate 100
        (real_of_int te * real_of_int ((ti XOR (4 + Teq)) XOR 4) powr (1 / 4))))"
  unfolding temperature_def ones_like_pressures
  by (simp only: option.case times_pow_nonneg [OF assms])

lemma temperature_neg:
  assumes "(ti XOR (4 + Teq)) XOR 4 < 0"
  shows "temperature (Some te) (Some ti) Teq =
     Inr (Complex128 (replicate 100
        (of_int te * rcis (real_of_int (- ((ti XOR (4 + Teq)) XOR 4)) powr (1 / 4)) (pi / 4))))"
  unfolding temperature_def ones_like_pressures
  by (simp only: option.case times_pow_neg [OF assms])

lemma window_loop_floats:
  "\<forall>i\<in>set is. i < length F \<and> F ! i \<noteq> [] \<Longrightarrow>
   window_loop (map OFloat64 F) is (mins, maxs) =
     Inr (mins @ map (\<lambda>i. NpFloat (hd (F ! i))) is, maxs @ map (\<lambda>i. NpFloat (last (F ! i))) is)"
proof (induction "is" arbitrary: mins maxs)
  case Nil
  then show ?case by simp
next
  case (Cons i rest)
  from Cons.prems have i: "i < length F" and n: "F ! i \<noteq> []" by simp_all
  have f: "getitem_first (map OFloat64 F ! i) = Inr (NpFloat (hd (F ! i)))"
    using i n by (cases "F ! i") simp_all
  have l: "getitem_last (map OFloat64 F ! i) = Inr (NpFloat (last (F ! i)))"
    using i n by simp
  from Cons.prems have "\<forall>i\<in>set rest. i < length F \<and> F ! i \<noteq> []" by simp
  from Cons.IH [OF this] show ?case using i f l by simp
qed

lemma map_nth_fun: "map (\<lambda>i. f (A ! i)) [0..<length A] = map f A"
proof -
  have "map (\<lambda>i. f (A ! i)) [0..<length A] = map f (map ((!) A) [0..<length A])"
    by (simp add: comp_def)
  then show ?thesis by (simp add: map_nth)
qed

lemma window_loop_file:
  assumes "\<forall>xs\<in>set F. xs \<noteq> []"
  shows "window_loop (map OFloat64 F) [0..<length F] ([], []) =
           Inr (map (\<lambda>xs. NpFloat (hd xs)) F, map (\<lambda>xs. NpFloat (last xs)) F)"
proof -
  have "\<forall>i\<in>set [0..<length F]. i < length F \<and> F ! i \<noteq> []"
    using assms by simp
  then show ?thesis
    by (simp add: window_loop_floats map_nth_fun [of "\<lambda>xs. NpFloat (hd xs)" F]
        map_nth_fun [of "\<lambda>xs. NpFloat (last xs)" F] del: upt_rec_numeral)
qed

lemma np_array_floats: "np_array (map (\<lambda>xs. NpFloat (h xs)) F) = OFloat64 (map h F)"
  by (cases F) (simp_all add: np_array_def comp_def)

lemma enumerate_orders_floats:
  assumes "arg_wlens_file a = Some p" and "pickle_load ev p = Inr (map OFloat64 F)"
    and "\<forall>xs\<in>set F. xs \<noteq> []"
  shows "enumerate_orders ev a =
      Inr \<lparr> order_by_order = True, ndet = length F,
            W_min = Array (map (\<lambda>xs. hd xs / 1000) F),
            W_max = Array (map (\<lambda>xs. last xs / 1000) F),
            det = [0..<length F] \<rparr>"
  using assms(1,2)
  by (simp add: enumerate_orders_def window_loop_file [OF assms(3)] np_array_floats
      Let_def comp_def del: upt_rec_numeral)

subsection \<open>The loop body and the loop\<close>

lemma compute_model_ok:
  "engine ev (length (calls w)) (engine_request g a b f) = Inr (Rt, fr) \<Longrightarrow>
   compute_model ev g a b f w =
     (Inr (Rt, wlens_of ev fr), w\<lparr>calls := calls w @ [engine_request g a b f]\<rparr>)"
  by (simp add: compute_model_def wlens_of_def Let_def comp_def)

lemma compute_model_fail:
  "engine ev (length (calls w)) (engine_request g a b f) = Inl e \<Longrightarrow>
   compute_model ev g a b f w = (Inl e, w\<lparr>calls := calls w @ [engine_request g a b f]\<rparr>)"
  by (simp add: compute_model_def Let_def)

lemma order_body_ok:
  assumes "i < length (det (cx_orders cx))"
    and "engine ev (length (calls w)) (order_request cx) = Inr (Rt, fr)"
    and "dump_error ev (rep_fin cx i) = None"
  shows "order_body ev cx i w =
     (None, w\<lparr>calls := calls w @ [order_request cx],
              writes := writes w @ [(rep_fin cx i, wlens_of ev fr, flux_decrement Rt (cx_Rs cx))]\<rparr>)"
  using assms by (simp add: order_body_def order_request_def compute_model_ok Let_def)

lemma order_body_engine_fail:
  assumes "i < length (det (cx_orders cx))"
    and "engine ev (length (calls w)) (order_request cx) = Inl e"
  shows "order_body ev cx i w = (Some e, w\<lparr>calls := calls w @ [order_request cx]\<rparr>)"
  using assms by (simp add: order_body_def order_request_def compute_model_fail)

lemma order_body_dump_fail:
  assumes "i < length (det (cx_orders cx))"
    and "engine ev (length (calls w)) (order_request cx) = Inr r"
    and "dump_error ev (rep_fin cx i) = Some e"
  shows "order_body ev cx i w = (Some e, w\<lparr>calls := calls w @ [order_request cx]\<rparr>)"
  using assms by (cases r) (simp add: order_body_def order_request_def compute_model_ok Let_def)

lemma order_body_NoneD:
  assumes "order_body ev cx i w = (None, w')"
  shows "i < length (det (cx_orders cx)) \<and> dump_error ev (rep_fin cx i) = None \<and>
    (\<exists>Rt fr. engine ev (length (calls w)) (order_request cx) = Inr (Rt, fr) \<and>
       w' = w\<lparr>calls := calls w @ [order_request cx],
              writes := writes w @ [(rep_fin cx i, wlens_of ev fr, flux_decrement Rt (cx_Rs cx))]\<rparr>)"
proof -
  have i: "i < length (det (cx_orders cx))"
    using assms by (auto simp: order_body_def split: if_splits)
  show ?thesis
  proof (cases "engine ev (length (calls w)) (order_request cx)")
    case (Inl e)
    then show ?thesis using assms i by (simp add: order_body_engine_fail)
  next
    case (Inr r)
    obtain Rt fr where r: "r = (Rt, fr)" by (cases r)
    show ?thesis
    proof (cases "dump_error ev (rep_fin cx i)")
      case None
      then show ?thesis using assms i Inr r by (auto simp: order_body_ok)
    next
      case (Some e)
      then show ?thesis using assms i Inr by (simp add: order_body_dump_fail)
    qed
  qed
qed

lemma main_loop_success:
  "main_loop ev cx is w = (None, w') \<Longrightarrow>
   dirs w' = dirs w \<and> calls w' = calls w @ replicate (length is) (order_request cx) \<and>
   (\<exists>ws. writes w' = writes w @ ws \<and> length ws = length is \<and>
      (\<forall>j<length is. is ! j < length (det (cx_orders cx)) \<and> (\<exists>Rt fr.
          engine ev (length (calls w) + j) (order_request cx) = Inr (Rt, fr) \<and>
          ws ! j = (rep_fin cx (is ! j), wlens_of ev fr, flux_decrement Rt (cx_Rs cx)))))"
proof (induction "is" arbitrary: w)
  case Nil
  then show ?case by simp
next
  case (Cons i rest)
  obtain r w1 where b: "order_body ev cx i w = (r, w1)" by (cases "order_body ev cx i w")
  with Cons.prems have rn: "r = None" by (cases r) auto
  from b rn Cons.prems have l: "main_loop ev cx rest w1 = (None, w')" by simp
  from order_body_NoneD [OF b [unfolded rn]] obtain Rt fr where
      i: "i < length (det (cx_orders cx))"
    and e: "engine ev (length (calls w)) (order_request cx) = Inr (Rt, fr)"
    and w1: "w1 = w\<lparr>calls := calls w @ [order_request cx],
              writes := writes w @ [(rep_fin cx i, wlens_of ev fr, flux_decrement Rt (cx_Rs cx))]\<rparr>"
    by blast
  from Cons.IH [OF l] obtain ws where
      d: "dirs w' = dirs w1"
    and c: "calls w' = calls w1 @ replicate (length rest) (order_request cx)"
    and ws: "writes w' = writes w1 @ ws" "length ws = length rest"
    and p: "\<forall>j<length rest. rest ! j < length (det (cx_orders cx)) \<and> (\<exists>Rt fr.
          engine ev (length (calls w1) + j) (order_request cx) = Inr (Rt, fr) \<and>
          ws ! j = (rep_fin cx (rest ! j), wlens_of ev fr, flux_decrement Rt (cx_Rs cx)))"
    by blast
  let ?x = "(rep_fin cx i, wlens_of ev fr, flux_decrement Rt (cx_Rs cx))"
  have "writes w' = writes w @ (?x # ws)" using ws w1 by simp
  moreover have "length (?x # ws) = length (i # rest)" using ws by simp
  moreover have "\<forall>j<length (i # rest). (i # rest) ! j < length (det (cx_orders cx)) \<and> (\<exists>Rt fr.
          engine ev (length (calls w) + j) (order_request cx) = Inr (Rt, fr) \<and>
          (?x # ws) ! j = (rep_fin cx ((i # rest) ! j), wlens_of ev fr, flux_decrement Rt (cx_Rs cx)))"
  proof (intro allI impI)
    fix j assume j: "j < length (i # rest)"
    show "(i # rest) ! j < length (det (cx_orders cx)) \<and> (\<exists>Rt fr.
          engine ev (length (calls w) + j) (order_request cx) = Inr (Rt, fr) \<and>
          (?x # ws) ! j = (rep_fin cx ((i # rest) ! j), wlens_of ev fr, flux_decrement Rt (cx_Rs cx)))"
    proof (cases j)
      case 0
      then show ?thesis using i e by simp
    next
      case (Suc j')
      then have "j' < length rest" using j by simp
      with p w1 Suc show ?thesis by simp
    qed
  qed
  moreover have "dirs w' = dirs w" using d w1 by simp
  moreover have "calls w' = calls w @ replicate (length (i # rest)) (order_request cx)"
    using c w1 by (simp add: replicate_app_Cons_same)
  ultimately show ?case by blast
qed

lemma order_body_calls:
  "calls (snd (order_body ev cx i w)) = calls w \<or>
   calls (snd (order_body ev cx i w)) = calls w @ [order_request cx]"
  by (auto simp: order_body_def compute_model_def order_request_def Let_def
      split: sum.splits option.splits prod.splits)

lemma main_loop_calls:
  "\<exists>k\<le>length is. calls (snd (main_loop ev cx is w)) = calls w @ replicate k (order_request cx)"
proof (induction "is" arbitrary: w)
  case Nil
  then show ?case by simp
next
  case (Cons i rest)
  obtain r w1 where b: "order_body ev cx i w = (r, w1)" by (cases "order_body ev cx i w")
  from order_body_calls [of ev cx i w] b
  have c1: "calls w1 = calls w \<or> calls w1 = calls w @ [order_request cx]" by simp
  then obtain k1 where k1: "k1 \<le> 1" "calls w1 = calls w @ replicate k1 (order_request cx)"
  proof
    assume "calls w1 = calls w"
    then show ?thesis using that [of 0] by simp
  next
    assume "calls w1 = calls w @ [order_request cx]"
    then show ?thesis using that [of 1] by simp
  qed
  show ?case
  proof (cases r)
    case (Some e)
    then have "calls (snd (main_loop ev cx (i # rest) w)) = calls w1" using b by simp
    with k1 show ?thesis by (intro exI [of _ k1]) simp
  next
    case None
    from Cons.IH [of w1] obtain k where
      k: "k \<le> length rest" "calls (snd (main_loop ev cx rest w1)) = calls w1 @ replicate k (order_request cx)"
      by blast
    have "calls (snd (main_loop ev cx (i # rest) w)) = calls w @ replicate (k1 + k) (order_request cx)"
      using None b k k1 by (simp add: replicate_add)
    moreover have "k1 + k \<le> length (i # rest)" using k k1 by simp
    ultimately show ?thesis by blast
  qed
qed

lemma main_loop_fail:
  assumes "k < length is"
    and "\<forall>j\<le>k. is ! j < length (det (cx_orders cx))"
    and "\<forall>j<k. (\<exists>r. engine ev (length (calls w) + j) (order_request cx) = Inr r) \<and>
           dump_error ev (rep_fin cx (is ! j)) = None"
    and "engine ev (length (calls w) + k) (order_request cx) = Inl e \<or>
         (\<exists>r. engine ev (length (calls w) + k) (order_request cx) = Inr r) \<and>
           dump_error ev (rep_fin cx (is ! k)) = Some e"
  shows "\<exists>w'. main_loop ev cx is w = (Some e, w') \<and>
           length (calls w') = length (calls w) + k + 1 \<and>
           length (writes w') = length (writes w) + k \<and> dirs w' = dirs w"
  using assms
proof (induction "is" arbitrary: w k)
  case Nil
  then show ?case by simp
next
  case (Cons i rest)
  have i: "i < length (det (cx_orders cx))" using Cons.prems(2) by auto
  show ?case
  proof (cases k)
    case 0
    from Cons.prems(4) [unfolded 0]
    have "order_body ev cx i w = (Some e, w\<lparr>calls := calls w @ [order_request cx]\<rparr>)"
      using i by (auto simp: order_body_engine_fail order_body_dump_fail)
    then show ?thesis using 0 by simp
  next
    case (Suc k')
    from Cons.prems(3) Suc obtain r where
      r: "engine ev (length (calls w)) (order_request cx) = Inr r"
      and d: "dump_error ev (rep_fin cx i) = None" by fastforce
    obtain Rt fr where rr: "r = (Rt, fr)" by (cases r)
    let ?w1 = "w\<lparr>calls := calls w @ [order_request cx],
              writes := writes w @ [(rep_fin cx i, wlens_of ev fr, flux_decrement Rt (cx_Rs cx))]\<rparr>"
    have b: "order_body ev cx i w = (None, ?w1)"
      using order_body_ok [OF i r [unfolded rr] d] .
    have 1: "k' < length rest" using Cons.prems(1) Suc by simp
    have 2: "\<forall>j\<le>k'. rest ! j < length (det (cx_orders cx))"
      using Cons.prems(2) Suc by auto
    have 3: "\<forall>j<k'. (\<exists>r. engine ev (length (calls ?w1) + j) (order_request cx) = Inr r) \<and>
           dump_error ev (rep_fin cx (rest ! j)) = None"
    proof (intro allI impI)
      fix j assume "j < k'"
      then have "Suc j < k" using Suc by simp
      with Cons.prems(3) have "(\<exists>r. engine ev (length (calls w) + Suc j) (order_request cx) = Inr r) \<and>
           dump_error ev (rep_fin cx ((i # rest) ! Suc j)) = None" by blast
      then show "(\<exists>r. engine ev (length (calls ?w1) + j) (order_request cx) = Inr r) \<and>
           dump_error ev (rep_fin cx (rest ! j)) = None" by simp
    qed
    have 4: "engine ev (length (calls ?w1) + k') (order_request cx) = Inl e \<or>
         (\<exists>r. engine ev (length (calls ?w1) + k') (order_request cx) = Inr r) \<and>
           dump_error ev (rep_fin cx (rest ! k')) = Some e"
      using Cons.prems(4) Suc by simp
    from Cons.IH [OF 1 2 3 4] obtain w' where
      "main_loop ev cx rest ?w1 = (Some e, w')"
      "length (calls w') = length (calls ?w1) + k' + 1"
      "length (writes w') = length (writes ?w1) + k'" "dirs w' = dirs ?w1" by blast
    then show ?thesis using b Suc by simp
  qed
qed

subsection \<open>Decimal strings and the setup\<close>

lemma digit_char_inj:
  "a < 10 \<Longrightarrow> b < 10 \<Longrightarrow> digit_char a = digit_char b \<Longrightarrow> a = b"
proof -
  assume a: "a < 10" and b: "b < 10" and e: "digit_char a = digit_char b"
  have d: "distinct ''0123456789''" by simp
  have "a < length ''0123456789''" "b < length ''0123456789''" using a b by simp_all
  with d e show "a = b"
    unfolding digit_char_def by (simp only: nth_eq_iff_index_eq)
qed

lemma str_nonempty: "str n \<noteq> []"
  by (subst str.simps) simp

lemma str_inj: "str m = str n \<Longrightarrow> m = n"
proof (induction m arbitrary: n rule: str.induct)
  case (1 m)
  show ?case
  proof (cases "m < 10")
    case True
    then have sm: "str m = [digit_char m]" by (subst str.simps) simp
    show ?thesis
    proof (cases "n < 10")
      case n: True
      then have "str n = [digit_char n]" by (subst str.simps) simp
      with sm "1.prems" True n show ?thesis by (simp add: digit_char_inj)
    next
      case False
      then have "str n = str (n div 10) @ [digit_char (n mod 10)]" by (subst str.simps) simp
      with sm "1.prems" str_nonempty [of "n div 10"] show ?thesis by simp
    qed
  next
    case False
    then have sm: "str m = str (m div 10) @ [digit_char (m mod 10)]" by (subst str.simps) simp
    show ?thesis
    proof (cases "n < 10")
      case True
      then have "str n = [digit_char n]" by (subst str.simps) simp
      with sm "1.prems" str_nonempty [of "m div 10"] show ?thesis by simp
    next
      case n: False
      then have sn: "str n = str (n div 10) @ [digit_char (n mod 10)]" by (subst str.simps) simp
      from sm sn "1.prems" have e: "str (m div 10) = str (n div 10)"
        and d: "digit_char (m mod 10) = digit_char (n mod 10)" by simp_all
      from "1.IH" [OF False e] have q: "m div 10 = n div 10" .
      have r: "m mod 10 = n mod 10" using d by (simp add: digit_char_inj)
      have "m = 10 * (m div 10) + m mod 10" by simp
      also have "\<dots> = 10 * (n div 10) + n mod 10" using q r by simp
      finally show ?thesis by simp
    qed
  qed
qed

lemma ensure_dir_keeps:
  "ensure_dir ev d w = (r, w1) \<Longrightarrow> calls w1 = calls w \<and> writes w1 = writes w"
  by (auto simp: ensure_dir_def split: if_splits option.splits)

lemma ensure_dir_NoneD:
  "ensure_dir ev d w = (None, w1) \<Longrightarrow> d \<in> set (dirs w1)"
  by (auto simp: ensure_dir_def split: if_splits option.splits)

lemma run_setup_keeps:
  "calls (snd (run_setup ev u w)) = calls w \<and> writes (snd (run_setup ev u w)) = writes w"
  by (auto simp: run_setup_def Let_def split: prod.splits option.splits sum.splits
      dest!: ensure_dir_keeps)

lemma run_setup_InrD:
  assumes "run_setup ev u w = (Inr cx, w1)"
  shows "calls w1 = calls w" and "writes w1 = writes w"
    and "cx_Rs cx = cli_Rs u * nc_r_sun ev" and "cx_wfactor cx = 1 / 100"
    and "enumerate_orders ev (parse_args u) = Inr (cx_orders cx)"
    and "cx_save_dir cx =
          extend_save_dir ''pRT_models/'' (parse_args u) (order_by_order (cx_orders cx))"
    and "cx_save_dir cx \<in> set (dirs w1)"
    and "g_abundances (cx_globals cx) = abundances"
    and "g_LS (cx_globals cx) = LS (arg_species (parse_args u))"
    and "temperature (cli_Teff u) (cli_Tint u) (cli_Teq u) = Inr (g_temperature (cx_globals cx))"
proof -
  show "calls w1 = calls w" "writes w1 = writes w"
    using run_setup_keeps [of ev u w] assms by simp_all
  show "cx_Rs cx = cli_Rs u * nc_r_sun ev"
    using assms by (auto simp: run_setup_def Let_def parse_args_def
        split: prod.splits option.splits sum.splits)
  show "cx_wfactor cx = 1 / 100"
    using assms by (auto simp: run_setup_def Let_def
        split: prod.splits option.splits sum.splits)
  show "enumerate_orders ev (parse_args u) = Inr (cx_orders cx)"
    using assms by (auto simp: run_setup_def Let_def
        split: prod.splits option.splits sum.splits)
  show "cx_save_dir cx =
          extend_save_dir ''pRT_models/'' (parse_args u) (order_by_order (cx_orders cx))"
    using assms by (auto simp: run_setup_def Let_def
        split: prod.splits option.splits sum.splits)
  show "cx_save_dir cx \<in> set (dirs w1)"
    using assms by (auto simp: run_setup_def Let_def
        split: prod.splits option.splits sum.splits dest: ensure_dir_NoneD)
  show "g_abundances (cx_globals cx) = abundances"
    using assms by (auto simp: run_setup_def Let_def
        split: prod.splits option.splits sum.splits)
  show "g_LS (cx_globals cx) = LS (arg_species (parse_args u))"
    using assms by (auto simp: run_setup_def Let_def
        split: prod.splits option.splits sum.splits)
  show "temperature (cli_Teff u) (cli_Tint u) (cli_Teq u) = Inr (g_temperature (cx_globals cx))"
    using assms by (auto simp: run_setup_def Let_def parse_args_def
        split: prod.splits option.splits sum.splits)
qed

lemma enumerate_orders_InrD:
  assumes "enumerate_orders ev a = Inr os"
  shows "length (det os) = ndet os" and "distinct (det os)"
    and "order_by_order os = (arg_wlens_file a \<noteq> None)"
    and "det os = (if arg_wlens_file a \<noteq> None then [0..<ndet os] else [1])"
  using assms
  by (auto simp: enumerate_orders_def split: option.splits sum.splits prod.splits)

lemma enumerate_orders_no_file:
  "arg_wlens_file a = None \<Longrightarrow>
   enumerate_orders ev a = Inr \<lparr> order_by_order = False, ndet = 1,
       W_min = Scalar (arg_wmin a), W_max = Scalar (arg_wmax a), det = [1] \<rparr>"
  by (simp add: enumerate_orders_def)

lemma extend_save_dir_eq:
  "extend_save_dir ''pRT_models/'' a obo =
     ''pRT_models/'' @ arg_planet a @ ''_1xSolar_'' @ join ''_'' (arg_species a) @ ''_R1M/''
       @ (if obo then ''order_by_order/'' else [])"
  by (simp add: extend_save_dir_def solar_def Let_def)

subsection \<open>Requests and success of the loop\<close>

lemma order_body_calls_in_range:
  "i < length (det (cx_orders cx)) \<Longrightarrow>
   calls (snd (order_body ev cx i w)) = calls w @ [order_request cx]"
  by (auto simp: order_body_def compute_model_def order_request_def Let_def
      split: sum.splits option.splits prod.splits)

lemma main_calls:
  assumes "rq \<in> set (drop (length (calls w)) (calls (snd (main ev u w))))"
  shows "\<exists>cx w1. run_setup ev u w = (Inr cx, w1) \<and> rq = order_request cx"
proof -
  obtain r w1 where s: "run_setup ev u w = (r, w1)" by (cases "run_setup ev u w")
  have c1: "calls w1 = calls w" using run_setup_keeps [of ev u w] s by simp
  show ?thesis
  proof (cases r)
    case (Inl e)
    then have "snd (main ev u w) = w1" using s by (simp add: main_def)
    with assms c1 show ?thesis by simp
  next
    case (Inr cx)
    then have m: "main ev u w = main_loop ev cx [0..<ndet (cx_orders cx)] w1"
      using s by (simp add: main_def)
    from main_loop_calls [of "[0..<ndet (cx_orders cx)]" ev cx w1] obtain k where
      "calls (snd (main ev u w)) = calls w @ replicate k (order_request cx)"
      using m c1 by auto
    with assms have "rq = order_request cx" by auto
    with s Inr show ?thesis by simp
  qed
qed

lemma main_loop_all_ok:
  assumes "\<forall>j<length is. is ! j < length (det (cx_orders cx)) \<and>
           (\<exists>r. engine ev (length (calls w) + j) (order_request cx) = Inr r) \<and>
           dump_error ev (rep_fin cx (is ! j)) = None"
  shows "fst (main_loop ev cx is w) = None"
  using assms
proof (induction "is" arbitrary: w)
  case Nil
  then show ?case by simp
next
  case (Cons i rest)
  from Cons.prems have "(i # rest) ! 0 < length (det (cx_orders cx)) \<and>
           (\<exists>r. engine ev (length (calls w) + 0) (order_request cx) = Inr r) \<and>
           dump_error ev (rep_fin cx ((i # rest) ! 0)) = None" by blast
  then obtain Rt fr where i: "i < length (det (cx_orders cx))"
    and r: "engine ev (length (calls w)) (order_request cx) = Inr (Rt, fr)"
    and d: "dump_error ev (rep_fin cx i) = None" by auto
  let ?w1 = "w\<lparr>calls := calls w @ [order_request cx],
              writes := writes w @ [(rep_fin cx i, wlens_of ev fr, flux_decrement Rt (cx_Rs cx))]\<rparr>"
  have b: "order_body ev cx i w = (None, ?w1)"
    using order_body_ok [OF i r d] .
  have "\<forall>j<length rest. rest ! j < length (det (cx_orders cx)) \<and>
           (\<exists>r. engine ev (length (calls ?w1) + j) (order_request cx) = Inr r) \<and>
           dump_error ev (rep_fin cx (rest ! j)) = None"
  proof (intro allI impI)
    fix j assume "j < length rest"
    then have "Suc j < length (i # rest)" by simp
    with Cons.prems have "(i # rest) ! Suc j < length (det (cx_orders cx)) \<and>
           (\<exists>r. engine ev (length (calls w) + Suc j) (order_request cx) = Inr r) \<and>
           dump_error ev (rep_fin cx ((i # rest) ! Suc j)) = None" by blast
    then show "rest ! j < length (det (cx_orders cx)) \<and>
           (\<exists>r. engine ev (length (calls ?w1) + j) (order_request cx) = Inr r) \<and>
           dump_error ev (rep_fin cx (rest ! j)) = None" by simp
  qed
  from Cons.IH [OF this] show ?case using b by simp
qed

lemma rep_fin_inj:
  "rep_fin cx i = rep_fin cx j \<Longrightarrow> det (cx_orders cx) ! i = det (cx_orders cx) ! j"
  by (simp add: rep_fin_def str_inj)

lemma main_success:
  assumes "run_setup ev u w = (Inr cx, w1)"
    and "\<forall>i<ndet (cx_orders cx).
           (\<exists>r. engine ev (length (calls w) + i) (order_request cx) = Inr r) \<and>
           dump_error ev (rep_fin cx i) = None"
  shows "\<exists>w' ws. main ev u w = (None, w') \<and> writes w' = writes w @ ws \<and>
           calls w' = calls w @ replicate (ndet (cx_orders cx)) (order_request cx) \<and>
           dirs w' = dirs w1 \<and>
           length ws = ndet (cx_orders cx) \<and> distinct (map fst ws) \<and>
           (\<forall>i<ndet (cx_orders cx). \<exists>Rt fr.
              engine ev (length (calls w) + i) (order_request cx) = Inr (Rt, fr) \<and>
              ws ! i = (rep_fin cx i, wlens_of ev fr, flux_decrement Rt (cx_Rs cx)))"
proof -
  let ?n = "ndet (cx_orders cx)"
  have c1: "calls w1 = calls w" and wr1: "writes w1 = writes w"
    and en: "enumerate_orders ev (parse_args u) = Inr (cx_orders cx)"
    using run_setup_InrD [OF assms(1)] by simp_all
  have ld: "length (det (cx_orders cx)) = ?n" and dd: "distinct (det (cx_orders cx))"
    using enumerate_orders_InrD [OF en] by simp_all
  have m: "main ev u w = main_loop ev cx [0..<?n] w1"
    using assms(1) by (simp add: main_def)
  have "\<forall>j<length [0..<?n]. [0..<?n] ! j < length (det (cx_orders cx)) \<and>
           (\<exists>r. engine ev (length (calls w1) + j) (order_request cx) = Inr r) \<and>
           dump_error ev (rep_fin cx ([0..<?n] ! j)) = None"
    using assms(2) ld c1 by simp
  from main_loop_all_ok [OF this] obtain w' where
    l: "main_loop ev cx [0..<?n] w1 = (None, w')"
    by (cases "main_loop ev cx [0..<?n] w1") simp
  from main_loop_success [OF l] obtain ws where
    ws: "writes w' = writes w1 @ ws" "length ws = ?n"
    and cs: "calls w' = calls w1 @ replicate ?n (order_request cx)" "dirs w' = dirs w1"
    and p: "\<forall>j<length [0..<?n]. (\<exists>Rt fr.
          engine ev (length (calls w1) + j) (order_request cx) = Inr (Rt, fr) \<and>
          ws ! j = (rep_fin cx ([0..<?n] ! j), wlens_of ev fr, flux_decrement Rt (cx_Rs cx)))"
    by auto
  have q: "\<forall>i<?n. \<exists>Rt fr.
              engine ev (length (calls w) + i) (order_request cx) = Inr (Rt, fr) \<and>
              ws ! i = (rep_fin cx i, wlens_of ev fr, flux_decrement Rt (cx_Rs cx))"
    using p c1 by simp
  have f: "\<forall>i<?n. fst (ws ! i) = rep_fin cx i"
  proof (intro allI impI)
    fix i assume "i < ?n"
    with q obtain Rt fr where
      "ws ! i = (rep_fin cx i, wlens_of ev fr, flux_decrement Rt (cx_Rs cx))" by blast
    then show "fst (ws ! i) = rep_fin cx i" by simp
  qed
  have "distinct (map fst ws)"
  proof (unfold distinct_conv_nth, intro allI impI)
    fix i j assume i: "i < length (map fst ws)" and j: "j < length (map fst ws)" and ne: "i \<noteq> j"
    show "map fst ws ! i \<noteq> map fst ws ! j"
    proof
      assume "map fst ws ! i = map fst ws ! j"
      then have "rep_fin cx i = rep_fin cx j" using i j f ws(2) by simp
      then have "det (cx_orders cx) ! i = det (cx_orders cx) ! j" by (rule rep_fin_inj)
      with dd ld i j ws(2) have "i = j" by (simp add: nth_eq_iff_index_eq)
      with ne show False by simp
    qed
  qed
  with m l ws wr1 q cs c1 show ?thesis by auto
qed

lemma main_NoneD:
  assumes "main ev u w = (None, w')"
  shows "\<exists>cx w1. run_setup ev u w = (Inr cx, w1) \<and>
           main_loop ev cx [0..<ndet (cx_orders cx)] w1 = (None, w')"
proof -
  obtain r w1 where s: "run_setup ev u w = (r, w1)" by (cases "run_setup ev u w")
  show ?thesis
  proof (cases r)
    case (Inl e)
    with s assms show ?thesis by (simp add: main_def)
  next
    case (Inr cx)
    with s assms show ?thesis by (simp add: main_def)
  qed
qed

subsection \<open>The sample runs, evaluated\<close>

lemma ex_setup: "run_setup ex_env ex_cli w0 = (Inr ex_cx, ex_w1)"
  by (simp add: run_setup_def ensure_dir_def parse_args_def ex_env_def ex_cli_def w0_def
      temperature_no_Teff enumerate_orders_no_file extend_save_dir_eq LS_def Let_def
      ex_cx_def ex_globals_def ex_w1_def)

lemma ex_setup_orders: "run_setup ex_env ex_cli_orders w0 = (Inr ex_cx_orders, ex_w1_orders)"
  by (simp add: run_setup_def ensure_dir_def parse_args_def ex_env_def ex_cli_def w0_def
      ex_cli_orders_def ex_pickle_load_def
      temperature_no_Teff enumerate_orders_def np_array_def extend_save_dir_eq LS_def Let_def
      ex_cx_orders_def ex_globals_def ex_w1_orders_def)

lemma ex_request_ok:
  "engine ex_env n rq = Inr ([6957000000], [299792458000000])"
  "dump_error ex_env p = None"
  by (simp_all add: ex_env_def ex_engine_def)

lemma ex_rep_fin: "rep_fin ex_cx 0 = ''pRT_models/W77_1xSolar_H2O_NH3_H2_R1M/template_det1.pic''"
  by (simp add: rep_fin_def ex_cx_def str.simps digit_char_def)

lemma ex_fields:
  "cx_Rs ex_cx = 69570000000" "nc_c ex_env = 29979245800"
  "cx_Rs ex_cx_orders = 69570000000"
  by (simp_all add: ex_cx_def ex_cx_orders_def ex_env_def)

lemma ex_main: "main ex_env ex_cli w0 = (None, ex_final)"
proof -
  have i: "0 < length (det (cx_orders ex_cx))" by (simp add: ex_cx_def)
  have b: "order_body ex_env ex_cx 0 ex_w1 = (None, ex_final)"
    using order_body_ok [OF i ex_request_ok(1) ex_request_ok(2), of ex_w1]
    by (simp add: ex_rep_fin ex_final_def ex_w1_def wlens_of_def flux_decrement_def ex_fields)
  have "ndet (cx_orders ex_cx) = 1" by (simp add: ex_cx_def)
  then show ?thesis using b by (simp add: main_def ex_setup)
qed

section \<open>The claims\<close>

lemma ex_species: "arg_species (parse_args ex_cli) = [''H2O'', ''NH3'', ''H2'']"
  by (simp add: parse_args_def ex_cli_def)

lemma ex_rq_in: "order_request ex_cx \<in> set (drop (length (calls w0)) (calls (snd (main ex_env ex_cli w0))))"
proof -
  have "calls w0 = []" by (simp add: w0_def)
  then show ?thesis by (simp add: ex_main ex_final_def)
qed

text \<open>
  C3. Every request that a run hands to the engine carries an abundance mapping with the
  same eight keys, whatever \<^verbatim>\<open>--species\<close> says. Selecting \<^verbatim>\<open>NH3\<close> (or \<^verbatim>\<open>H2\<close>) puts
  \<^verbatim>\<open>NH3_main_iso\<close> (or \<^verbatim>\<open>H2_main_iso\<close>) into the line species although the mapping has
  no entry under that key.
\<close>

theorem abundances_fixed_keys:
  assumes "rq \<in> set (drop (length (calls w)) (calls (snd (main ev u w))))"
  shows "set (map fst (rq_abundances rq)) =
           {''H2'', ''He'', ''H2O_main_iso'', ''CO_all_iso'', ''NH3'', ''CO2_main_iso'',
            ''CH4_main_iso'', ''HCN_main_iso''}
     \<and> (''NH3'' \<in> set (arg_species (parse_args u)) \<longrightarrow>
          ''NH3_main_iso'' \<in> set (line_species rq) \<and>
          map_of (rq_abundances rq) ''NH3_main_iso'' = None)
     \<and> (''H2'' \<in> set (arg_species (parse_args u)) \<longrightarrow>
          ''H2_main_iso'' \<in> set (line_species rq) \<and>
          map_of (rq_abundances rq) ''H2_main_iso'' = None)"
proof -
  from main_calls [OF assms] obtain cx w1 where
    s: "run_setup ev u w = (Inr cx, w1)" and rq: "rq = order_request cx" by blast
  have a: "rq_abundances rq = abundances"
    using run_setup_InrD(8) [OF s] rq by (simp add: order_request_def engine_request_def Let_def)
  have l: "line_species rq = LS (arg_species (parse_args u))"
    using run_setup_InrD(9) [OF s] rq by (simp add: order_request_def engine_request_def Let_def)
  have n1: "map_of abundances ''NH3_main_iso'' = None"
    by (rule map_of_None_keys) (simp add: abundances_keys_list)
  have n2: "map_of abundances ''H2_main_iso'' = None"
    by (rule map_of_None_keys) (simp add: abundances_keys_list)
  have k: "set (map fst abundances) =
           {''H2'', ''He'', ''H2O_main_iso'', ''CO_all_iso'', ''NH3'', ''CO2_main_iso'',
            ''CH4_main_iso'', ''HCN_main_iso''}"
    by (simp only: abundances_keys_list list.set)
  show ?thesis
    using n1 n2 LS_NH3 LS_H2 k by (simp only: a l) blast
qed

text \<open>The sample run selects \<^verbatim>\<open>H2O NH3 H2\<close>.\<close>

theorem abundances_fixed_keys_witness:
  "order_request ex_cx \<in> set (drop (length (calls w0)) (calls (snd (main ex_env ex_cli w0))))
   \<and> ''NH3'' \<in> set (arg_species (parse_args ex_cli))
   \<and> ''H2'' \<in> set (arg_species (parse_args ex_cli))
   \<and> set (map fst (rq_abundances (order_request ex_cx))) =
           {''H2'', ''He'', ''H2O_main_iso'', ''CO_all_iso'', ''NH3'', ''CO2_main_iso'',
            ''CH4_main_iso'', ''HCN_main_iso''}
   \<and> ''NH3_main_iso'' \<in> set (line_species (order_request ex_cx))
   \<and> map_of (rq_abundances (order_request ex_cx)) ''NH3_main_iso'' = None
   \<and> ''H2_main_iso'' \<in> set (line_species (order_request ex_cx))
   \<and> map_of (rq_abundances (order_request ex_cx)) ''H2_main_iso'' = None"
proof -
  have s1: "''NH3'' \<in> set (arg_species (parse_args ex_cli))"
    and s2: "''H2'' \<in> set (arg_species (parse_args ex_cli))"
    by (simp_all add: ex_species)
  note t = abundances_fixed_keys [OF ex_rq_in]
  have k: "set (map fst (rq_abundances (order_request ex_cx))) =
           {''H2'', ''He'', ''H2O_main_iso'', ''CO_all_iso'', ''NH3'', ''CO2_main_iso'',
            ''CH4_main_iso'', ''HCN_main_iso''}"
    using t by (rule conjunct1)
  have n: "''NH3_main_iso'' \<in> set (line_species (order_request ex_cx)) \<and>
          map_of (rq_abundances (order_request ex_cx)) ''NH3_main_iso'' = None"
    using t [THEN conjunct2, THEN conjunct1] s1 by (rule mp)
  have h: "''H2_main_iso'' \<in> set (line_species (order_request ex_cx)) \<and>
          map_of (rq_abundances (order_request ex_cx)) ''H2_main_iso'' = None"
    using t [THEN conjunct2, THEN conjunct2] s2 by (rule mp)
  show ?thesis
    using ex_rq_in s1 s2 k n h by (intro conjI) (erule conjunct1 conjunct2 | assumption)+
qed

text \<open>
  C4 is about line 123, \<^verbatim>\<open>Teff*(Tint^4+Teq^4)**0.25\<close>: a sum of fourth powers under a
  fourth root, written with \<^verbatim>\<open>^\<close> where the power is \<^verbatim>\<open>**\<close>. Python reads
  \<^verbatim>\<open>Tint^4+Teq^4\<close> as \<^verbatim>\<open>(Tint ^ (4+Teq)) ^ 4\<close>, an exclusive or. With
  \<^verbatim>\<open>Teff = Tint = Teq = 1\<close> every entry of the temperature array is 0; the fourth powers
  give \<open>2 ** 0.25\<close>, and \<^verbatim>\<open>(Tint XOR 4) + (Teq XOR 4)\<close>, the reading of the claim, gives
  \<open>10 ** 0.25\<close>.
\<close>

theorem temperature_xor_at_ones:
  "temperature (Some 1) (Some 1) 1 = Inr (Float64 (replicate 100 0))
   \<and> temperature (Some 1) (Some 1) 1 \<noteq>
     Inr (Float64 (replicate 100 (real_of_int 1 * real_of_int (1 ^ 4 + 1 ^ 4) powr (1 / 4))))
   \<and> temperature (Some 1) (Some 1) 1 \<noteq>
     Inr (Float64 (replicate 100
       (real_of_int 1 * real_of_int (((1::int) XOR 4) + (1 XOR 4)) powr (1 / 4))))"
proof -
  have a: "temperature (Some 1) (Some 1) 1 = Inr (Float64 (replicate 100 0))"
    using temperature_nonneg [of 1 1 1] by simp
  have "(2::real) powr (1 / 4) \<noteq> 0" by simp
  then have b: "replicate 100 (0::real) \<noteq> replicate 100 (2 powr (1 / 4))"
    by (simp add: replicate_eq_replicate)
  have "(10::real) powr (1 / 4) \<noteq> 0" by simp
  then have c: "replicate 100 (0::real) \<noteq> replicate 100 (10 powr (1 / 4))"
    by (simp add: replicate_eq_replicate)
  show ?thesis using a b c by simp
qed

lemma ex_request_orders:
  "wlen_bords_micron (order_request ex_cx_orders) =
     [Array [99 / 100, 198 / 100], Array [1111 / 1000, 2121 / 1000]]"
  by (simp add: order_request_def engine_request_def ex_cx_orders_def Let_def)

lemma ex_ndet_orders: "ndet (cx_orders ex_cx_orders) = 2"
  by (simp add: ex_cx_orders_def)

lemma ex_main_orders:
  "\<exists>w'. main ex_env ex_cli_orders w0 = (None, w') \<and>
      calls w' = calls w0 @ replicate 2 (order_request ex_cx_orders)"
proof -
  have "\<forall>i<ndet (cx_orders ex_cx_orders).
           (\<exists>r. engine ex_env (length (calls w0) + i) (order_request ex_cx_orders) = Inr r) \<and>
           dump_error ex_env (rep_fin ex_cx_orders i) = None"
    by (simp add: ex_request_ok)
  from main_success [OF ex_setup_orders this] show ?thesis
    by (auto simp: ex_ndet_orders)
qed

text \<open>
  C1 asks that the i-th engine invocation of an order-by-order run be made over
  \<^verbatim>\<open>W_min[i]\<close> and \<^verbatim>\<open>W_max[i]\<close>. Line 211 passes the whole arrays. On the sample file with
  the two orders 1000..1100 and 2000..2100 both invocations receive the same bounds, the
  arrays \<^verbatim>\<open>[0.99, 1.98]\<close> and \<^verbatim>\<open>[1.111, 2.121]\<close>, instead of 0.99 and 1.111 for order 0 and
  1.98 and 2.121 for order 1.
\<close>

theorem order_loop_passes_whole_arrays:
  "map wlen_bords_micron (calls (snd (main ex_env ex_cli_orders w0))) =
     [[Array [99 / 100, 198 / 100], Array [1111 / 1000, 2121 / 1000]],
      [Array [99 / 100, 198 / 100], Array [1111 / 1000, 2121 / 1000]]]"
proof -
  from ex_main_orders obtain w' where
    m: "main ex_env ex_cli_orders w0 = (None, w')"
    and c: "calls w' = calls w0 @ replicate 2 (order_request ex_cx_orders)" by blast
  have "calls w0 = []" by (simp add: w0_def)
  with c have "calls w' = [order_request ex_cx_orders, order_request ex_cx_orders]"
    by (simp add: numeral_2_eq_2)
  then show ?thesis by (simp add: m ex_request_orders)
qed

text \<open>
  C2, as stated, makes the serialized flux decrement the squared radius ratio. Line 213
  multiplies by -1.0: for a transit radius 2 and a stellar radius 1 the value is -4, not 4.
\<close>

theorem flux_decrement_sign_counterexample:
  "flux_decrement [2] 1 = [- 4] \<and> flux_decrement [2] 1 \<noteq> [(2 / 1) ^ 2]"
  by (simp add: flux_decrement_def)

text \<open>
  C2, amended. In a run that completes, the third component of the j-th file written is,
  entry by entry, the negated squared ratio \<open>- (Rtransit / Rs)\<^sup>2\<close> of the transit radii that
  the j-th engine invocation returned, with \<open>Rs\<close> the \<^verbatim>\<open>--Rs\<close> argument times the solar
  radius.
\<close>

theorem flux_decrement_serialized:
  assumes "main ev u w = (None, w')"
  shows "\<exists>ws. writes w' = writes w @ ws \<and>
     (\<forall>j<length ws. \<exists>Rt fr.
        engine ev (length (calls w) + j) (calls w' ! (length (calls w) + j)) = Inr (Rt, fr) \<and>
        snd (snd (ws ! j)) = map (\<lambda>r. - ((r / (cli_Rs u * nc_r_sun ev)) ^ 2)) Rt)"
proof -
  from main_NoneD [OF assms] obtain cx w1 where
    s: "run_setup ev u w = (Inr cx, w1)"
    and l: "main_loop ev cx [0..<ndet (cx_orders cx)] w1 = (None, w')" by blast
  let ?n = "ndet (cx_orders cx)"
  have c1: "calls w1 = calls w" and wr1: "writes w1 = writes w"
    and rs: "cx_Rs cx = cli_Rs u * nc_r_sun ev"
    using run_setup_InrD [OF s] by simp_all
  from main_loop_success [OF l] obtain ws where
    ws: "writes w' = writes w1 @ ws" "length ws = ?n"
    and cs: "calls w' = calls w1 @ replicate ?n (order_request cx)"
    and p: "\<forall>j<length [0..<?n]. (\<exists>Rt fr.
          engine ev (length (calls w1) + j) (order_request cx) = Inr (Rt, fr) \<and>
          ws ! j = (rep_fin cx ([0..<?n] ! j), wlens_of ev fr, flux_decrement Rt (cx_Rs cx)))"
    by auto
  have "\<forall>j<length ws. \<exists>Rt fr.
        engine ev (length (calls w) + j) (calls w' ! (length (calls w) + j)) = Inr (Rt, fr) \<and>
        snd (snd (ws ! j)) = map (\<lambda>r. - ((r / (cli_Rs u * nc_r_sun ev)) ^ 2)) Rt"
  proof (intro allI impI)
    fix j assume j: "j < length ws"
    then have "j < length [0..<?n]" using ws(2) by simp
    with p obtain Rt fr where
      e: "engine ev (length (calls w1) + j) (order_request cx) = Inr (Rt, fr)"
      and x: "ws ! j = (rep_fin cx ([0..<?n] ! j), wlens_of ev fr, flux_decrement Rt (cx_Rs cx))"
      by blast
    have "calls w' ! (length (calls w) + j) = order_request cx"
      using cs c1 j ws(2) by (simp add: nth_append)
    moreover have "snd (snd (ws ! j)) = map (\<lambda>r. - ((r / (cli_Rs u * nc_r_sun ev)) ^ 2)) Rt"
      using x rs by (simp add: flux_decrement_def power_divide)
    ultimately show "\<exists>Rt fr.
        engine ev (length (calls w) + j) (calls w' ! (length (calls w) + j)) = Inr (Rt, fr) \<and>
        snd (snd (ws ! j)) = map (\<lambda>r. - ((r / (cli_Rs u * nc_r_sun ev)) ^ 2)) Rt"
      using e c1 by simp
  qed
  with ws wr1 show ?thesis by auto
qed

text \<open>The sample run writes one file; its flux decrement is \<open>- (0.1)\<^sup>2\<close>.\<close>

theorem flux_decrement_serialized_witness:
  "main ex_env ex_cli w0 = (None, ex_final) \<and>
   (\<exists>ws. writes ex_final = writes w0 @ ws \<and>
     (\<forall>j<length ws. \<exists>Rt fr.
        engine ex_env (length (calls w0) + j) (calls ex_final ! (length (calls w0) + j)) = Inr (Rt, fr) \<and>
        snd (snd (ws ! j)) = map (\<lambda>r. - ((r / (cli_Rs ex_cli * nc_r_sun ex_env)) ^ 2)) Rt))
   \<and> map (\<lambda>x. snd (snd x)) (writes ex_final) = [[- (1 / 100)]]"
proof -
  have "map (\<lambda>x. snd (snd x)) (writes ex_final) = [[- (1 / 100)]]"
    by (simp add: ex_final_def)
  with ex_main flux_decrement_serialized [OF ex_main] show ?thesis by (intro conjI)
qed

lemma wl_scale_cases:
  "wl_scale k v =
     (case v of Scalar a \<Rightarrow> Scalar (k * a) | Array xs \<Rightarrow> Array (map (\<lambda>x. k * x) xs))"
  by (cases v) simp_all

lemma ex_rq_in_orders:
  "order_request ex_cx_orders
     \<in> set (drop (length (calls w0)) (calls (snd (main ex_env ex_cli_orders w0))))"
proof -
  from ex_main_orders obtain w' where
    m: "main ex_env ex_cli_orders w0 = (None, w')"
    and c: "calls w' = calls w0 @ replicate 2 (order_request ex_cx_orders)" by blast
  show ?thesis by (simp add: m c)
qed

text \<open>
  C5. \<^verbatim>\<open>compute_model\<close> invokes the engine once, and the bounds it hands over are
  \<^verbatim>\<open>(1-wfactor)*wmin\<close> and \<^verbatim>\<open>wmax*(1+wfactor)\<close>: the product itself for a float, the
  product of every entry for an array. Every invocation that a run makes has
  \<^verbatim>\<open>wfactor = 0.01\<close>, so its bounds are \<^verbatim>\<open>(1-0.01)*W_min\<close> and \<^verbatim>\<open>(1+0.01)*W_max\<close>.
\<close>

theorem window_padded:
  "calls (snd (compute_model ev g wmin wmax wfactor w)) =
     calls w @ [engine_request g wmin wmax wfactor]
   \<and> wlen_bords_micron (engine_request g wmin wmax wfactor) =
       [case wmin of Scalar a \<Rightarrow> Scalar ((1 - wfactor) * a)
         | Array xs \<Rightarrow> Array (map (\<lambda>x. (1 - wfactor) * x) xs),
        case wmax of Scalar b \<Rightarrow> Scalar ((1 + wfactor) * b)
         | Array ys \<Rightarrow> Array (map (\<lambda>y. (1 + wfactor) * y) ys)]
   \<and> (\<forall>rq \<in> set (drop (length (calls w0')) (calls (snd (main ev u w0')))).
        \<exists>cx w1. run_setup ev u w0' = (Inr cx, w1) \<and>
          wlen_bords_micron rq =
            [case W_min (cx_orders cx) of Scalar a \<Rightarrow> Scalar ((1 - 1 / 100) * a)
              | Array xs \<Rightarrow> Array (map (\<lambda>x. (1 - 1 / 100) * x) xs),
             case W_max (cx_orders cx) of Scalar b \<Rightarrow> Scalar ((1 + 1 / 100) * b)
              | Array ys \<Rightarrow> Array (map (\<lambda>y. (1 + 1 / 100) * y) ys)])"
proof -
  have a: "calls (snd (compute_model ev g wmin wmax wfactor w)) =
     calls w @ [engine_request g wmin wmax wfactor]"
    by (simp add: compute_model_def Let_def split: sum.splits prod.splits)
  have b: "wlen_bords_micron (engine_request g' lo hi f) =
       [case lo of Scalar a \<Rightarrow> Scalar ((1 - f) * a)
         | Array xs \<Rightarrow> Array (map (\<lambda>x. (1 - f) * x) xs),
        case hi of Scalar b \<Rightarrow> Scalar ((1 + f) * b)
         | Array ys \<Rightarrow> Array (map (\<lambda>y. (1 + f) * y) ys)]" for g' lo hi f
    by (simp add: engine_request_def Let_def wl_scale_cases)
  have c: "\<forall>rq \<in> set (drop (length (calls w0')) (calls (snd (main ev u w0')))).
        \<exists>cx w1. run_setup ev u w0' = (Inr cx, w1) \<and>
          wlen_bords_micron rq =
            [case W_min (cx_orders cx) of Scalar a \<Rightarrow> Scalar ((1 - 1 / 100) * a)
              | Array xs \<Rightarrow> Array (map (\<lambda>x. (1 - 1 / 100) * x) xs),
             case W_max (cx_orders cx) of Scalar b \<Rightarrow> Scalar ((1 + 1 / 100) * b)
              | Array ys \<Rightarrow> Array (map (\<lambda>y. (1 + 1 / 100) * y) ys)]"
  proof
    fix rq assume "rq \<in> set (drop (length (calls w0')) (calls (snd (main ev u w0'))))"
    from main_calls [OF this] obtain cx w1 where
      s: "run_setup ev u w0' = (Inr cx, w1)" and rq: "rq = order_request cx" by blast
    have wf: "cx_wfactor cx = 1 / 100" using run_setup_InrD(4) [OF s] .
    have "wlen_bords_micron rq =
            [case W_min (cx_orders cx) of Scalar a \<Rightarrow> Scalar ((1 - cx_wfactor cx) * a)
              | Array xs \<Rightarrow> Array (map (\<lambda>x. (1 - cx_wfactor cx) * x) xs),
             case W_max (cx_orders cx) of Scalar b \<Rightarrow> Scalar ((1 + cx_wfactor cx) * b)
              | Array ys \<Rightarrow> Array (map (\<lambda>y. (1 + cx_wfactor cx) * y) ys)]"
      unfolding rq order_request_def by (rule b)
    then have "wlen_bords_micron rq =
            [case W_min (cx_orders cx) of Scalar a \<Rightarrow> Scalar ((1 - 1 / 100) * a)
              | Array xs \<Rightarrow> Array (map (\<lambda>x. (1 - 1 / 100) * x) xs),
             case W_max (cx_orders cx) of Scalar b \<Rightarrow> Scalar ((1 + 1 / 100) * b)
              | Array ys \<Rightarrow> Array (map (\<lambda>y. (1 + 1 / 100) * y) ys)]"
      unfolding wf .
    with s show "\<exists>cx w1. run_setup ev u w0' = (Inr cx, w1) \<and>
          wlen_bords_micron rq =
            [case W_min (cx_orders cx) of Scalar a \<Rightarrow> Scalar ((1 - 1 / 100) * a)
              | Array xs \<Rightarrow> Array (map (\<lambda>x. (1 - 1 / 100) * x) xs),
             case W_max (cx_orders cx) of Scalar b \<Rightarrow> Scalar ((1 + 1 / 100) * b)
              | Array ys \<Rightarrow> Array (map (\<lambda>y. (1 + 1 / 100) * y) ys)]" by blast
  qed
  from a b [of g wmin wmax wfactor] c show ?thesis by (intro conjI)
qed

text \<open>In the single-model sample run the window 1.2 to 2.5 microns reaches the engine as
  1.188 to 2.525; in the order-by-order sample run the arrays \<^verbatim>\<open>[1, 2]\<close> and
  \<^verbatim>\<open>[1.1, 2.1]\<close> reach it as \<^verbatim>\<open>[0.99, 1.98]\<close> and \<^verbatim>\<open>[1.111, 2.121]\<close>.\<close>

theorem window_padded_witness:
  "order_request ex_cx \<in> set (drop (length (calls w0)) (calls (snd (main ex_env ex_cli w0))))
   \<and> wlen_bords_micron (order_request ex_cx) = [Scalar (1188 / 1000), Scalar (2525 / 1000)]
   \<and> order_request ex_cx_orders
        \<in> set (drop (length (calls w0)) (calls (snd (main ex_env ex_cli_orders w0))))
   \<and> wlen_bords_micron (order_request ex_cx_orders) =
        [Array [99 / 100, 198 / 100], Array [1111 / 1000, 2121 / 1000]]"
proof -
  from window_padded [of ex_env ex_globals "Scalar 0" "Scalar 0" 0 w0 w0 ex_cli]
  have "\<forall>rq \<in> set (drop (length (calls w0)) (calls (snd (main ex_env ex_cli w0)))).
        \<exists>cx w1. run_setup ex_env ex_cli w0 = (Inr cx, w1) \<and>
          wlen_bords_micron rq =
            [case W_min (cx_orders cx) of Scalar a \<Rightarrow> Scalar ((1 - 1 / 100) * a)
              | Array xs \<Rightarrow> Array (map (\<lambda>x. (1 - 1 / 100) * x) xs),
             case W_max (cx_orders cx) of Scalar b \<Rightarrow> Scalar ((1 + 1 / 100) * b)
              | Array ys \<Rightarrow> Array (map (\<lambda>y. (1 + 1 / 100) * y) ys)]"
    by (elim conjE)
  with ex_rq_in obtain cx w1 where
    s: "run_setup ex_env ex_cli w0 = (Inr cx, w1)"
    and b: "wlen_bords_micron (order_request ex_cx) =
            [case W_min (cx_orders cx) of Scalar a \<Rightarrow> Scalar ((1 - 1 / 100) * a)
              | Array xs \<Rightarrow> Array (map (\<lambda>x. (1 - 1 / 100) * x) xs),
             case W_max (cx_orders cx) of Scalar b \<Rightarrow> Scalar ((1 + 1 / 100) * b)
              | Array ys \<Rightarrow> Array (map (\<lambda>y. (1 + 1 / 100) * y) ys)]" by blast
  have "cx = ex_cx" using s by (simp add: ex_setup)
  then have "W_min (cx_orders cx) = Scalar (12 / 10)" "W_max (cx_orders cx) = Scalar (25 / 10)"
    by (simp_all add: ex_cx_def)
  with b have 1: "wlen_bords_micron (order_request ex_cx) =
      [Scalar (1188 / 1000), Scalar (2525 / 1000)]"
    by simp
  from window_padded [of ex_env ex_globals "Scalar 0" "Scalar 0" 0 w0 w0 ex_cli_orders]
  have "\<forall>rq \<in> set (drop (length (calls w0)) (calls (snd (main ex_env ex_cli_orders w0)))).
        \<exists>cx w1. run_setup ex_env ex_cli_orders w0 = (Inr cx, w1) \<and>
          wlen_bords_micron rq =
            [case W_min (cx_orders cx) of Scalar a \<Rightarrow> Scalar ((1 - 1 / 100) * a)
              | Array xs \<Rightarrow> Array (map (\<lambda>x. (1 - 1 / 100) * x) xs),
             case W_max (cx_orders cx) of Scalar b \<Rightarrow> Scalar ((1 + 1 / 100) * b)
              | Array ys \<Rightarrow> Array (map (\<lambda>y. (1 + 1 / 100) * y) ys)]"
    by (elim conjE)
  with ex_rq_in_orders obtain cx' w1' where
    s': "run_setup ex_env ex_cli_orders w0 = (Inr cx', w1')"
    and b': "wlen_bords_micron (order_request ex_cx_orders) =
            [case W_min (cx_orders cx') of Scalar a \<Rightarrow> Scalar ((1 - 1 / 100) * a)
              | Array xs \<Rightarrow> Array (map (\<lambda>x. (1 - 1 / 100) * x) xs),
             case W_max (cx_orders cx') of Scalar b \<Rightarrow> Scalar ((1 + 1 / 100) * b)
              | Array ys \<Rightarrow> Array (map (\<lambda>y. (1 + 1 / 100) * y) ys)]" by blast
  have "cx' = ex_cx_orders" using s' by (simp add: ex_setup_orders)
  then have "W_min (cx_orders cx') = Array [1, 2]" "W_max (cx_orders cx') = Array [11 / 10, 21 / 10]"
    by (simp_all add: ex_cx_orders_def)
  with b' have 2: "wlen_bords_micron (order_request ex_cx_orders) =
        [Array [99 / 100, 198 / 100], Array [1111 / 1000, 2121 / 1000]]"
    by simp
  from ex_rq_in 1 ex_rq_in_orders 2 show ?thesis by (intro conjI)
qed

text \<open>
  C6, as stated, covers every wavelength file. On a file whose arrays hold integers,
  \<^verbatim>\<open>np.array(W_min)\<close> has dtype int64 and the in-place division of line 184 raises
  TypeError: no order is enumerated.
\<close>

theorem orders_from_int_file_counterexample:
  "arg_wlens_file (parse_args ex_cli_int) = Some ''orders_int.pic''
   \<and> pickle_load ex_env ''orders_int.pic'' = Inr [OInt64 [1000, 1100], OInt64 [2000, 2100]]
   \<and> enumerate_orders ex_env (parse_args ex_cli_int) = Inl TypeError"
  by (simp add: parse_args_def ex_cli_int_def ex_cli_def ex_env_def ex_pickle_load_def
      enumerate_orders_def np_array_def Let_def)

text \<open>
  C6, amended. With a wavelength file whose entries are non-empty float arrays, the
  enumeration succeeds, the number of orders is the number of entries, and the i-th
  minimum and maximum wavelengths are the first and the last element of the i-th entry,
  divided by 1000.
\<close>

theorem orders_from_file:
  assumes "arg_wlens_file a = Some p" and "pickle_load ev p = Inr (map OFloat64 F)"
    and "\<forall>xs\<in>set F. xs \<noteq> []"
  shows "\<exists>os mins maxs. enumerate_orders ev a = Inr os \<and> ndet os = length F
     \<and> W_min os = Array mins \<and> W_max os = Array maxs
     \<and> length mins = length F \<and> length maxs = length F
     \<and> (\<forall>i<length F. mins ! i = hd (F ! i) / 1000 \<and> maxs ! i = last (F ! i) / 1000)"
proof -
  from enumerate_orders_floats [OF assms] show ?thesis by simp
qed

theorem orders_from_file_witness:
  "arg_wlens_file (parse_args ex_cli_orders) = Some ''orders.pic''
   \<and> pickle_load ex_env ''orders.pic'' = Inr (map OFloat64 [[1000, 1100], [2000, 2100]])
   \<and> (\<exists>os. enumerate_orders ex_env (parse_args ex_cli_orders) = Inr os \<and> ndet os = 2
         \<and> W_min os = Array [1, 2] \<and> W_max os = Array [11 / 10, 21 / 10])"
proof -
  have f: "arg_wlens_file (parse_args ex_cli_orders) = Some ''orders.pic''"
    by (simp add: parse_args_def ex_cli_orders_def ex_cli_def)
  have l: "pickle_load ex_env ''orders.pic'' = Inr (map OFloat64 [[1000, 1100], [2000, 2100]])"
    by (simp add: ex_env_def ex_pickle_load_def)
  have n: "\<forall>e\<in>set [[1000, 1100], [2000, 2100::real]]. e \<noteq> []" by simp
  from orders_from_file [OF f l n] obtain os mins maxs where
    e: "enumerate_orders ex_env (parse_args ex_cli_orders) = Inr os"
    and nd: "ndet os = length [[1000, 1100], [2000, 2100::real]]"
    and w: "W_min os = Array mins" "W_max os = Array maxs"
    and len: "length mins = length [[1000, 1100], [2000, 2100::real]]"
      "length maxs = length [[1000, 1100], [2000, 2100::real]]"
    and p: "\<forall>i<length [[1000, 1100], [2000, 2100::real]].
        mins ! i = hd ([[1000, 1100], [2000, 2100]] ! i) / 1000 \<and>
        maxs ! i = last ([[1000, 1100], [2000, 2100]] ! i) / 1000" by blast
  from p have "mins ! 0 = 1 \<and> maxs ! 0 = 11 / 10" by (elim allE [of _ 0]) simp
  moreover from p have "mins ! 1 = 2 \<and> maxs ! 1 = 21 / 10" by (elim allE [of _ 1]) simp
  ultimately have "mins = [1, 2]" "maxs = [11 / 10, 21 / 10]"
    using len by (auto simp: list_eq_iff_nth_eq less_Suc_eq numeral_2_eq_2)
  with e nd w f l show ?thesis by simp
qed

text \<open>
  C7. Without a wavelength file there is one order, \<^verbatim>\<open>det = [1]\<close>, and its window is
  \<^verbatim>\<open>--wmin\<close> to \<^verbatim>\<open>--wmax\<close>, 1.2 and 2.5 when they are not given; a run that gets through
  the setup invokes the engine exactly once, on that window padded by the margin.
\<close>

theorem single_order_without_file:
  assumes "cli_wlens_file u = None"
  shows "enumerate_orders ev (parse_args u) =
           Inr \<lparr> order_by_order = False, ndet = 1,
                 W_min = Scalar (case cli_wmin u of None \<Rightarrow> 12 / 10 | Some v \<Rightarrow> v),
                 W_max = Scalar (case cli_wmax u of None \<Rightarrow> 25 / 10 | Some v \<Rightarrow> v),
                 det = [1] \<rparr>
     \<and> (\<forall>cx w1. run_setup ev u w = (Inr cx, w1) \<longrightarrow>
          (\<exists>rq. calls (snd (main ev u w)) = calls w @ [rq] \<and>
             wlen_bords_micron rq =
               [Scalar ((1 - 1 / 100) * (case cli_wmin u of None \<Rightarrow> 12 / 10 | Some v \<Rightarrow> v)),
                Scalar ((1 + 1 / 100) * (case cli_wmax u of None \<Rightarrow> 25 / 10 | Some v \<Rightarrow> v))]))"
proof -
  let ?os = "\<lparr> order_by_order = False, ndet = 1,
                 W_min = Scalar (case cli_wmin u of None \<Rightarrow> 12 / 10 | Some v \<Rightarrow> v),
                 W_max = Scalar (case cli_wmax u of None \<Rightarrow> 25 / 10 | Some v \<Rightarrow> v),
                 det = [1] \<rparr>"
  have f: "arg_wlens_file (parse_args u) = None" using assms by (simp add: parse_args_def)
  have e: "enumerate_orders ev (parse_args u) = Inr ?os"
    using enumerate_orders_no_file [OF f, of ev] by (simp add: parse_args_def)
  have "\<exists>rq. calls (snd (main ev u w)) = calls w @ [rq] \<and>
             wlen_bords_micron rq =
               [Scalar ((1 - 1 / 100) * (case cli_wmin u of None \<Rightarrow> 12 / 10 | Some v \<Rightarrow> v)),
                Scalar ((1 + 1 / 100) * (case cli_wmax u of None \<Rightarrow> 25 / 10 | Some v \<Rightarrow> v))]"
    if s: "run_setup ev u w = (Inr cx, w1)" for cx w1
  proof -
    have os: "cx_orders cx = ?os" using run_setup_InrD(5) [OF s] e by simp
    have c1: "calls w1 = calls w" using run_setup_InrD(1) [OF s] .
    have wf: "cx_wfactor cx = 1 / 100" using run_setup_InrD(4) [OF s] .
    have i: "0 < length (det (cx_orders cx))" by (simp add: os)
    obtain r w2 where b: "order_body ev cx 0 w1 = (r, w2)" by (cases "order_body ev cx 0 w1")
    have c2: "calls w2 = calls w1 @ [order_request cx]"
      using order_body_calls_in_range [OF i, of ev w1] b by simp
    have m: "main ev u w = main_loop ev cx [0] w1"
      using s by (simp add: main_def os)
    have "snd (main ev u w) = w2"
      unfolding m using b by (cases r) simp_all
    then have "calls (snd (main ev u w)) = calls w @ [order_request cx]"
      using c2 c1 by simp
    moreover have "wlen_bords_micron (order_request cx) =
               [Scalar ((1 - 1 / 100) * (case cli_wmin u of None \<Rightarrow> 12 / 10 | Some v \<Rightarrow> v)),
                Scalar ((1 + 1 / 100) * (case cli_wmax u of None \<Rightarrow> 25 / 10 | Some v \<Rightarrow> v))]"
      by (simp add: order_request_def engine_request_def Let_def os wf)
    ultimately show ?thesis by blast
  qed
  with e show ?thesis by blast
qed

theorem single_order_without_file_witness:
  "cli_wlens_file ex_cli = None
   \<and> run_setup ex_env ex_cli w0 = (Inr ex_cx, ex_w1)
   \<and> enumerate_orders ex_env (parse_args ex_cli) =
       Inr \<lparr> order_by_order = False, ndet = 1, W_min = Scalar (12 / 10),
             W_max = Scalar (25 / 10), det = [1] \<rparr>
   \<and> (\<exists>rq. calls (snd (main ex_env ex_cli w0)) = calls w0 @ [rq] \<and>
         wlen_bords_micron rq = [Scalar (1188 / 1000), Scalar (2525 / 1000)])"
proof -
  have f: "cli_wlens_file ex_cli = None" by (simp add: ex_cli_def)
  have d: "cli_wmin ex_cli = None" "cli_wmax ex_cli = None" by (simp_all add: ex_cli_def)
  note t = single_order_without_file [OF f, of ex_env w0]
  have a: "enumerate_orders ex_env (parse_args ex_cli) =
       Inr \<lparr> order_by_order = False, ndet = 1, W_min = Scalar (12 / 10),
             W_max = Scalar (25 / 10), det = [1] \<rparr>"
    using t [THEN conjunct1] by (simp add: d)
  from t [THEN conjunct2] ex_setup
  have "\<exists>rq. calls (snd (main ex_env ex_cli w0)) = calls w0 @ [rq] \<and>
             wlen_bords_micron rq =
               [Scalar ((1 - 1 / 100) * (case cli_wmin ex_cli of None \<Rightarrow> 12 / 10 | Some v \<Rightarrow> v)),
                Scalar ((1 + 1 / 100) * (case cli_wmax ex_cli of None \<Rightarrow> 25 / 10 | Some v \<Rightarrow> v))]"
    by blast
  then have b: "\<exists>rq. calls (snd (main ex_env ex_cli w0)) = calls w0 @ [rq] \<and>
         wlen_bords_micron rq = [Scalar (1188 / 1000), Scalar (2525 / 1000)]"
    by (simp add: d)
  from f ex_setup a b show ?thesis by (intro conjI)
qed

text \<open>
  C9. The directory that the setup creates and the loop writes into is
  \<^verbatim>\<open>pRT_models/\<close>, the planet name, \<^verbatim>\<open>_1xSolar_\<close>, the species joined by \<^verbatim>\<open>_\<close>, and
  \<^verbatim>\<open>_R1M/\<close>, followed by \<^verbatim>\<open>order_by_order/\<close> exactly when a wavelength file was given.
\<close>

theorem save_dir_path:
  assumes "run_setup ev u w = (Inr cx, w1)"
  shows "cx_save_dir cx =
           ''pRT_models/'' @ cli_planet u @ ''_1xSolar_''
             @ join ''_'' (case cli_species u of None \<Rightarrow> [''H2''] | Some s \<Rightarrow> s) @ ''_R1M/''
             @ (if cli_wlens_file u \<noteq> None then ''order_by_order/'' else [])
     \<and> cx_save_dir cx \<in> set (dirs w1)"
proof -
  have en: "enumerate_orders ev (parse_args u) = Inr (cx_orders cx)"
    using run_setup_InrD(5) [OF assms] .
  have "order_by_order (cx_orders cx) = (arg_wlens_file (parse_args u) \<noteq> None)"
    using enumerate_orders_InrD(3) [OF en] .
  then have o: "order_by_order (cx_orders cx) = (cli_wlens_file u \<noteq> None)"
    by (simp add: parse_args_def)
  have "cx_save_dir cx =
          extend_save_dir ''pRT_models/'' (parse_args u) (order_by_order (cx_orders cx))"
    using run_setup_InrD(6) [OF assms] .
  then have "cx_save_dir cx =
           ''pRT_models/'' @ cli_planet u @ ''_1xSolar_''
             @ join ''_'' (case cli_species u of None \<Rightarrow> [''H2''] | Some s \<Rightarrow> s) @ ''_R1M/''
             @ (if cli_wlens_file u \<noteq> None then ''order_by_order/'' else [])"
    unfolding extend_save_dir_eq o by (simp add: parse_args_def)
  with run_setup_InrD(7) [OF assms] show ?thesis by (intro conjI)
qed

theorem save_dir_path_witness:
  "run_setup ex_env ex_cli w0 = (Inr ex_cx, ex_w1)
   \<and> cx_save_dir ex_cx = ''pRT_models/W77_1xSolar_H2O_NH3_H2_R1M/''
   \<and> run_setup ex_env ex_cli_orders w0 = (Inr ex_cx_orders, ex_w1_orders)
   \<and> cx_save_dir ex_cx_orders = ''pRT_models/W77_1xSolar_H2O_NH3_H2_R1M/order_by_order/''
   \<and> cx_save_dir ex_cx_orders \<in> set (dirs ex_w1_orders)"
proof -
  have a: "cx_save_dir ex_cx = ''pRT_models/W77_1xSolar_H2O_NH3_H2_R1M/''"
    using save_dir_path [OF ex_setup, THEN conjunct1] by (simp add: ex_cli_def)
  have b: "cx_save_dir ex_cx_orders = ''pRT_models/W77_1xSolar_H2O_NH3_H2_R1M/order_by_order/''"
    using save_dir_path [OF ex_setup_orders, THEN conjunct1]
    by (simp add: ex_cli_orders_def ex_cli_def)
  have c: "cx_save_dir ex_cx_orders \<in> set (dirs ex_w1_orders)"
    using save_dir_path [OF ex_setup_orders] by (rule conjunct2)
  from ex_setup a ex_setup_orders b c show ?thesis by (intro conjI)
qed

text \<open>
  C10. When the setup succeeds and neither the engine nor the writing fails, the run
  completes and writes exactly one file per order, in order: the i-th file is named
  \<^verbatim>\<open>save_dir + 'template_det' + str(det[i]) + '.pic'\<close> and holds the wavelengths and the
  flux decrement computed from the i-th engine result. The names are pairwise different.
\<close>

theorem one_file_per_order:
  assumes "run_setup ev u w = (Inr cx, w1)"
    and "\<forall>i<ndet (cx_orders cx).
           (\<exists>r. engine ev (length (calls w) + i) (order_request cx) = Inr r) \<and>
           dump_error ev (rep_fin cx i) = None"
  shows "\<exists>w' ws. main ev u w = (None, w') \<and> writes w' = writes w @ ws \<and>
           length ws = ndet (cx_orders cx) \<and> distinct (map fst ws) \<and>
           (\<forall>i<ndet (cx_orders cx). \<exists>Rt fr.
              engine ev (length (calls w) + i) (order_request cx) = Inr (Rt, fr) \<and>
              ws ! i = (cx_save_dir cx @ ''template_det'' @ str (det (cx_orders cx) ! i) @ ''.pic'',
                        wlens_of ev fr, flux_decrement Rt (cx_Rs cx)))"
  using main_success [OF assms] unfolding rep_fin_def by blast

lemma ex_rep_fin_orders:
  "rep_fin ex_cx_orders 0 = ''pRT_models/W77_1xSolar_H2O_NH3_H2_R1M/order_by_order/template_det0.pic''"
  "rep_fin ex_cx_orders 1 = ''pRT_models/W77_1xSolar_H2O_NH3_H2_R1M/order_by_order/template_det1.pic''"
  "rep_fin ex_cx_orders (Suc 0) = ''pRT_models/W77_1xSolar_H2O_NH3_H2_R1M/order_by_order/template_det1.pic''"
  by (simp_all add: rep_fin_def ex_cx_orders_def str.simps digit_char_def)

lemma less_two: "(\<forall>i<2::nat. P i) = (P 0 \<and> P 1)"
  by (auto simp: less_Suc_eq numeral_2_eq_2)

theorem one_file_per_order_witness:
  "run_setup ex_env ex_cli_orders w0 = (Inr ex_cx_orders, ex_w1_orders)
   \<and> (\<exists>w'. main ex_env ex_cli_orders w0 = (None, w') \<and>
         writes w' =
           [(''pRT_models/W77_1xSolar_H2O_NH3_H2_R1M/order_by_order/template_det0.pic'',
             [1], [- (1 / 100)]),
            (''pRT_models/W77_1xSolar_H2O_NH3_H2_R1M/order_by_order/template_det1.pic'',
             [1], [- (1 / 100)])])"
proof -
  have ok: "\<forall>i<ndet (cx_orders ex_cx_orders).
           (\<exists>r. engine ex_env (length (calls w0) + i) (order_request ex_cx_orders) = Inr r) \<and>
           dump_error ex_env (rep_fin ex_cx_orders i) = None"
    by (simp add: ex_request_ok)
  from one_file_per_order [OF ex_setup_orders ok] obtain w' ws where
    m: "main ex_env ex_cli_orders w0 = (None, w')"
    and wr: "writes w' = writes w0 @ ws"
    and len: "length ws = ndet (cx_orders ex_cx_orders)"
    and p: "\<forall>i<ndet (cx_orders ex_cx_orders). \<exists>Rt fr.
              engine ex_env (length (calls w0) + i) (order_request ex_cx_orders) = Inr (Rt, fr) \<and>
              ws ! i = (cx_save_dir ex_cx_orders @ ''template_det''
                          @ str (det (cx_orders ex_cx_orders) ! i) @ ''.pic'',
                        wlens_of ex_env fr, flux_decrement Rt (cx_Rs ex_cx_orders))"
    by blast
  have v: "wlens_of ex_env [299792458000000] = [1]"
    "flux_decrement [6957000000] (cx_Rs ex_cx_orders) = [- (1 / 100)]"
    by (simp_all add: wlens_of_def flux_decrement_def ex_fields)
  have q: "\<forall>i<2. ws ! i = (rep_fin ex_cx_orders i, [1], [- (1 / 100)])"
    using p v unfolding ex_ndet_orders rep_fin_def by (simp add: ex_request_ok)
  have l2: "length ws = 2" using len by (simp add: ex_ndet_orders)
  have "ws = [(rep_fin ex_cx_orders 0, [1], [- (1 / 100)]),
              (rep_fin ex_cx_orders 1, [1], [- (1 / 100)])]"
    using q l2 by (auto simp: list_eq_iff_nth_eq less_Suc_eq numeral_2_eq_2)
  then have "writes w' =
           [(''pRT_models/W77_1xSolar_H2O_NH3_H2_R1M/order_by_order/template_det0.pic'',
             [1], [- (1 / 100)]),
            (''pRT_models/W77_1xSolar_H2O_NH3_H2_R1M/order_by_order/template_det1.pic'',
             [1], [- (1 / 100)])]"
    using wr by (simp add: ex_rep_fin_orders w0_def)
  with m ex_setup_orders show ?thesis by blast
qed

text \<open>
  C8. The script has no exception handler. (1) When unpickling the wavelength file
  raises, the run ends with that exception, having invoked the engine and written files
  not at all. (2) When the orders before the k-th go through and the k-th raises, in the
  engine or in writing its file, the run ends with that exception after k + 1 engine
  invocations and k files: nothing is retried and no later order is processed.
\<close>

theorem errors_propagate:
  "(cli_wlens_file u = Some p \<and> pickle_load ev p = Inl e \<and>
      ensure_dir ev ''pRT_models/'' w = (None, w1) \<and>
      temperature (cli_Teff u) (cli_Tint u) (cli_Teq u) = Inr t \<longrightarrow>
        main ev u w = (Some e, w1) \<and> calls w1 = calls w \<and> writes w1 = writes w)
   \<and> (run_setup ev u w = (Inr cx, w2) \<and> k < ndet (cx_orders cx) \<and>
      (\<forall>j<k. (\<exists>r. engine ev (length (calls w) + j) (order_request cx) = Inr r) \<and>
              dump_error ev (rep_fin cx j) = None) \<and>
      (engine ev (length (calls w) + k) (order_request cx) = Inl e \<or>
       (\<exists>r. engine ev (length (calls w) + k) (order_request cx) = Inr r) \<and>
         dump_error ev (rep_fin cx k) = Some e) \<longrightarrow>
        (\<exists>w'. main ev u w = (Some e, w') \<and>
           length (calls w') = length (calls w) + k + 1 \<and>
           length (writes w') = length (writes w) + k))"
proof (intro conjI impI)
  assume h: "cli_wlens_file u = Some p \<and> pickle_load ev p = Inl e \<and>
      ensure_dir ev ''pRT_models/'' w = (None, w1) \<and>
      temperature (cli_Teff u) (cli_Tint u) (cli_Teq u) = Inr t"
  then have "enumerate_orders ev (parse_args u) = Inl e"
    by (simp add: enumerate_orders_def parse_args_def)
  with h have "run_setup ev u w = (Inl e, w1)"
    by (simp add: run_setup_def Let_def parse_args_def)
  then show "main ev u w = (Some e, w1)" by (simp add: main_def)
  from h ensure_dir_keeps [of ev "''pRT_models/''" w None w1]
  show "calls w1 = calls w" "writes w1 = writes w" by simp_all
next
  assume h: "run_setup ev u w = (Inr cx, w2) \<and> k < ndet (cx_orders cx) \<and>
      (\<forall>j<k. (\<exists>r. engine ev (length (calls w) + j) (order_request cx) = Inr r) \<and>
              dump_error ev (rep_fin cx j) = None) \<and>
      (engine ev (length (calls w) + k) (order_request cx) = Inl e \<or>
       (\<exists>r. engine ev (length (calls w) + k) (order_request cx) = Inr r) \<and>
         dump_error ev (rep_fin cx k) = Some e)"
  let ?n = "ndet (cx_orders cx)"
  from h have s: "run_setup ev u w = (Inr cx, w2)" and k: "k < ?n" by simp_all
  have c2: "calls w2 = calls w" and wr2: "writes w2 = writes w"
    and en: "enumerate_orders ev (parse_args u) = Inr (cx_orders cx)"
    using run_setup_InrD [OF s] by simp_all
  have ld: "length (det (cx_orders cx)) = ?n"
    using enumerate_orders_InrD(1) [OF en] .
  have 1: "k < length [0..<?n]" using k by simp
  have 2: "\<forall>j\<le>k. [0..<?n] ! j < length (det (cx_orders cx))" using k ld by simp
  have 3: "\<forall>j<k. (\<exists>r. engine ev (length (calls w2) + j) (order_request cx) = Inr r) \<and>
           dump_error ev (rep_fin cx ([0..<?n] ! j)) = None"
    using h k c2 by simp
  have 4: "engine ev (length (calls w2) + k) (order_request cx) = Inl e \<or>
         (\<exists>r. engine ev (length (calls w2) + k) (order_request cx) = Inr r) \<and>
           dump_error ev (rep_fin cx ([0..<?n] ! k)) = Some e"
    using h k c2 by simp
  from main_loop_fail [OF 1 2 3 4] obtain w' where
    "main_loop ev cx [0..<?n] w2 = (Some e, w')"
    "length (calls w') = length (calls w2) + k + 1"
    "length (writes w') = length (writes w2) + k" by blast
  then show "\<exists>w'. main ev u w = (Some e, w') \<and>
           length (calls w') = length (calls w) + k + 1 \<and>
           length (writes w') = length (writes w) + k"
    using s c2 wr2 by (simp add: main_def)
qed

lemma ex_setup_engine_fails:
  "run_setup ex_env_engine_fails ex_cli_orders w0 = (Inr ex_cx_orders, ex_w1_orders)"
  by (simp add: run_setup_def ensure_dir_def parse_args_def ex_env_engine_fails_def ex_env_def
      ex_cli_def w0_def ex_cli_orders_def ex_pickle_load_def
      temperature_no_Teff enumerate_orders_def np_array_def extend_save_dir_eq LS_def Let_def
      ex_cx_orders_def ex_globals_def ex_w1_orders_def)

lemma ex_setup_dump_fails:
  "run_setup ex_env_dump_fails ex_cli_orders w0 = (Inr ex_cx_orders, ex_w1_orders)"
  by (simp add: run_setup_def ensure_dir_def parse_args_def ex_env_dump_fails_def ex_env_def
      ex_cli_def w0_def ex_cli_orders_def ex_pickle_load_def
      temperature_no_Teff enumerate_orders_def np_array_def extend_save_dir_eq LS_def Let_def
      ex_cx_orders_def ex_globals_def ex_w1_orders_def)

lemma ex_engine_fails:
  "engine ex_env_engine_fails 0 rq = Inr ([6957000000], [299792458000000])"
  "engine ex_env_engine_fails 1 rq = Inl (External ''engine'')"
  "engine ex_env_engine_fails (Suc 0) rq = Inl (External ''engine'')"
  "dump_error ex_env_engine_fails p = None"
  by (simp_all add: ex_env_engine_fails_def ex_env_def ex_engine_def)

lemma ex_dump_fails:
  "engine ex_env_dump_fails n rq = Inr ([6957000000], [299792458000000])"
  "dump_error ex_env_dump_fails (rep_fin ex_cx_orders 0) = None"
  "dump_error ex_env_dump_fails (rep_fin ex_cx_orders 1) = Some (External ''disk'')"
  "dump_error ex_env_dump_fails (rep_fin ex_cx_orders (Suc 0)) = Some (External ''disk'')"
  by (simp_all add: ex_env_dump_fails_def ex_env_def ex_engine_def ex_rep_fin_orders)

lemma ex_missing:
  "cli_wlens_file ex_cli_missing = Some ''missing.pic''"
  "pickle_load ex_env ''missing.pic'' = Inl (External ''FileNotFoundError'')"
  "ensure_dir ex_env ''pRT_models/'' w0 = (None, w0\<lparr>dirs := [''pRT_models/'']\<rparr>)"
  "temperature (cli_Teff ex_cli_missing) (cli_Tint ex_cli_missing) (cli_Teq ex_cli_missing) =
     Inr (Float64 (replicate 100 1700))"
  by (simp_all add: ex_cli_missing_def ex_cli_def ex_env_def ex_pickle_load_def ensure_dir_def
      w0_def temperature_no_Teff)

text \<open>Three runs: the wavelength file is missing; the engine raises on the second of two
  orders; writing the file of the second order raises. Each ends with the exception; the
  last two after two engine invocations and one file.\<close>

theorem errors_propagate_witness:
  "main ex_env ex_cli_missing w0 =
     (Some (External ''FileNotFoundError''), w0\<lparr>dirs := [''pRT_models/'']\<rparr>)
   \<and> (\<exists>w'. main ex_env_engine_fails ex_cli_orders w0 = (Some (External ''engine''), w') \<and>
         length (calls w') = 2 \<and> length (writes w') = 1)
   \<and> (\<exists>w'. main ex_env_dump_fails ex_cli_orders w0 = (Some (External ''disk''), w') \<and>
         length (calls w') = 2 \<and> length (writes w') = 1)"
proof -
  have c0: "length (calls w0) = 0" "length (writes w0) = 0" by (simp_all add: w0_def)
  have k: "(1::nat) < ndet (cx_orders ex_cx_orders)" by (simp add: ex_ndet_orders)
  have a: "main ex_env ex_cli_missing w0 =
     (Some (External ''FileNotFoundError''), w0\<lparr>dirs := [''pRT_models/'']\<rparr>)"
    using errors_propagate [where u = ex_cli_missing and p = "''missing.pic''" and ev = ex_env
        and e = "External ''FileNotFoundError''" and w = w0
        and ?w1.0 = "w0\<lparr>dirs := [''pRT_models/'']\<rparr>"
        and t = "Float64 (replicate 100 1700)", THEN conjunct1]
      ex_missing by blast
  have p1: "\<forall>j<1. (\<exists>r. engine ex_env_engine_fails (length (calls w0) + j)
                        (order_request ex_cx_orders) = Inr r) \<and>
              dump_error ex_env_engine_fails (rep_fin ex_cx_orders j) = None"
    by (simp add: c0 ex_engine_fails)
  have f1: "engine ex_env_engine_fails (length (calls w0) + 1) (order_request ex_cx_orders) =
              Inl (External ''engine'')"
    by (simp add: c0 ex_engine_fails)
  have "\<exists>w'. main ex_env_engine_fails ex_cli_orders w0 = (Some (External ''engine''), w') \<and>
           length (calls w') = length (calls w0) + 1 + 1 \<and>
           length (writes w') = length (writes w0) + 1"
    using errors_propagate [where ev = ex_env_engine_fails and u = ex_cli_orders and w = w0
        and cx = ex_cx_orders and ?w2.0 = ex_w1_orders and k = 1
        and e = "External ''engine''", THEN conjunct2]
      ex_setup_engine_fails k p1 f1 by blast
  then have b: "\<exists>w'. main ex_env_engine_fails ex_cli_orders w0 = (Some (External ''engine''), w') \<and>
         length (calls w') = 2 \<and> length (writes w') = 1"
    by (simp add: c0 numeral_2_eq_2)
  have p2: "\<forall>j<1. (\<exists>r. engine ex_env_dump_fails (length (calls w0) + j)
                        (order_request ex_cx_orders) = Inr r) \<and>
              dump_error ex_env_dump_fails (rep_fin ex_cx_orders j) = None"
    by (simp add: c0 ex_dump_fails)
  have f2: "(\<exists>r. engine ex_env_dump_fails (length (calls w0) + 1) (order_request ex_cx_orders) = Inr r) \<and>
         dump_error ex_env_dump_fails (rep_fin ex_cx_orders 1) = Some (External ''disk'')"
    by (simp add: ex_dump_fails)
  have "\<exists>w'. main ex_env_dump_fails ex_cli_orders w0 = (Some (External ''disk''), w') \<and>
           length (calls w') = length (calls w0) + 1 + 1 \<and>
           length (writes w') = length (writes w0) + 1"
    using errors_propagate [where ev = ex_env_dump_fails and u = ex_cli_orders and w = w0
        and cx = ex_cx_orders and ?w2.0 = ex_w1_orders and k = 1
        and e = "External ''disk''", THEN conjunct2]
      ex_setup_dump_fails k p2 f2 by blast
  then have c: "\<exists>w'. main ex_env_dump_fails ex_cli_orders w0 = (Some (External ''disk''), w') \<and>
         length (calls w') = 2 \<and> length (writes w') = 1"
    by (simp add: c0 numeral_2_eq_2)
  from a b c show ?thesis by (intro conjI)
qed

end
